theory Spec2Isabelle
  imports Main "HOL-Library.AList" "HOL-Library.List_Lexorder" "HOL-Library.Char_ord"
begin

section \<open>Values, dictionaries and strings\<close>

text \<open>
  The values a configuration record holds. \<open>VStr\<close> is a Python \<open>str\<close>, \<open>VList\<close> a
  \<open>list\<close>, \<open>VDict\<close> a \<open>dict\<close> with string keys, and \<open>VOther n\<close> any value of another
  type (a number, a boolean, \<open>None\<close>, a callable): such a value is not a string, not
  iterable and not a mapping, and two of them are equal in Python exactly when they carry
  the same tag.

  A Python \<open>dict\<close> is an association list in insertion order: assigning to a key that
  is present replaces the value in place, assigning to a new key appends it
  (\<open>AList.update\<close>). The keys of a well-formed dictionary are distinct. Python compares
  dictionaries regardless of the order of their keys; the model compares values with HOL
  equality, which agrees with \<open>==\<close> on strings, on opaque values and on lists of them.
\<close>

datatype pyval =
    VStr string
  | VList "pyval list"
  | VDict "(string \<times> pyval) list"
  | VOther nat

type_synonym 'v dict = "(string \<times> 'v) list"

type_synonym config = "pyval dict"

definition dict_get :: "'v dict \<Rightarrow> string \<Rightarrow> 'v option" where
  "dict_get d k = map_of d k"

definition dict_keys :: "'v dict \<Rightarrow> string list" where
  "dict_keys d = map fst d"

definition dict_has :: "string \<Rightarrow> 'v dict \<Rightarrow> bool" where
  \<comment> \<open>\<open>k in d\<close>\<close>
  "dict_has k d = (k \<in> set (dict_keys d))"

definition dict_set :: "'v dict \<Rightarrow> string \<Rightarrow> 'v \<Rightarrow> 'v dict" where
  \<comment> \<open>\<open>d[k] = v\<close>\<close>
  "dict_set d k v = AList.update k v d"

definition dict_merge :: "'v dict \<Rightarrow> 'v dict \<Rightarrow> 'v dict" where
  \<comment> \<open>\<open>{**a, **b}\<close>, and \<open>a.update(b)\<close>: the entries of \<open>b\<close> are assigned in order.\<close>
  "dict_merge a b = fold (\<lambda>kv d. dict_set d (fst kv) (snd kv)) b a"

definition wf_dict :: "'v dict \<Rightarrow> bool" where
  "wf_dict d = distinct (dict_keys d)"

fun starts_with :: "string \<Rightarrow> string \<Rightarrow> bool" where
  \<comment> \<open>\<open>s.startswith(p)\<close>, written \<open>starts_with p s\<close>\<close>
  "starts_with [] s = True"
| "starts_with (c # p) [] = False"
| "starts_with (c # p) (d # s) = (c = d \<and> starts_with p s)"

fun contains :: "string \<Rightarrow> string \<Rightarrow> bool" where
  \<comment> \<open>\<open>sub in s\<close>, written \<open>contains sub s\<close>\<close>
  "contains sub [] = (sub = [])"
| "contains sub (c # s) = (starts_with sub (c # s) \<or> contains sub s)"


definition last_segment :: "string \<Rightarrow> string" where
  \<comment> \<open>\<open>s.split("/")[-1]\<close>: what follows the last slash, the whole string without one.\<close>
  "last_segment s = rev (takeWhile (\<lambda>c. c \<noteq> CHR ''/'') (rev s))"

definition join_underscore :: "string \<Rightarrow> string \<Rightarrow> string" where
  \<comment> \<open>\<open>"_".join([a, b])\<close>\<close>
  "join_underscore a b = a @ ''_'' @ b"


definition path_dirname :: "string \<Rightarrow> string" where
  \<comment> \<open>\<open>os.path.dirname(p)\<close> (POSIX)\<close>
  "path_dirname p =
     (let head = rev (dropWhile (\<lambda>c. c \<noteq> CHR ''/'') (rev p))
      in if head \<noteq> [] \<and> \<not> list_all (\<lambda>c. c = CHR ''/'') head
         then rev (dropWhile (\<lambda>c. c = CHR ''/'') (rev head))
         else head)"

section \<open>Errors\<close>

text \<open>
  The exceptions (subclasses of \<open>Exception\<close>) the code raises, or that the functions it
  calls raise. \<open>ModuleNotFoundError\<close> is a subclass of \<open>ImportError\<close>. \<open>OtherError\<close> stands
  for any other exception class an external function raises (a YAML parse error, an
  I/O error).
\<close>

datatype error =
    KeyError string
  | TypeError
  | ValueError string
  | AttributeError
  | AssertionError
  | RecursionError
  | ImportError
  | ModuleNotFoundError
  | OtherError nat

definition collision_error :: error where
  \<comment> \<open>line 48: \<open>ValueError("task and group name cannot be the same")\<close>\<close>
  "collision_error = ValueError ''task and group name cannot be the same''"

section \<open>Tasks, registries and the process state\<close>

text \<open>
  Modelled from the spec: \<open>TaskConfig\<close>, \<open>Task\<close> and \<open>ConfigurableTask\<close> are imported from
  \<open>lm_eval.api.task\<close>, which is not among the sources. The spec describes a \<open>TaskConfig\<close> as
  a record of named fields, created from parsed input without side effects, that
  serialises to a plain mapping keeping its non-serialisable fields; a factory as a
  named producer bound to one \<open>TaskConfig\<close>; and a task instance as what a factory
  produces from a configuration.
\<close>

datatype TaskConfig = TaskConfig config

fun to_dict :: "TaskConfig \<Rightarrow> config" where
  \<comment> \<open>\<open>CONFIG.to_dict(keep_callable=True)\<close>\<close>
  "to_dict (TaskConfig c) = c"

datatype task_class =
  TaskClass (class_name: string) (CONFIG: "TaskConfig option") (EVAL_HARNESS_NAME: "string option")

datatype task = Task (class_of: task_class) (config_of: config)

definition ConfigurableTask :: task_class where
  "ConfigurableTask = TaskClass ''ConfigurableTask'' None None"

text \<open>
  What a slot of \<open>TASK_REGISTRY\<close> can hold: a class (the factory), a live object, or a
  pair, which \<open>register_configurable_group\<close> unpacks (line 73). Object identity (\<open>is\<close>) is
  equality of the modelled values.
\<close>

datatype reg_entry =
    Cls task_class
  | Obj task
  | Tup string "reg_entry option"

text \<open>
  The values of a resolved task set: a bare instance, or the pair
  \<open>(group_name, instance_or_None)\<close> of a name reached through a group.
\<close>

datatype rval =
    RTask task
  | RPair string "rval option"

type_synonym resolved = "rval dict"

datatype log_entry =
    Debug_not_added string error
  | Warning_unexpected string error
  | Warning_missing_dependencies
  | Info_available_tasks "string list"
  | Print_rewriting_caches

text \<open>
  The module's global state: the three registries of \<open>lm_eval.api.registry\<close>, the cache
  behind \<open>load_from_cache\<close> and \<open>save_to_cache\<close>, the dictionaries a caller passes by
  reference (an address in \<open>heap\<close>), and what was logged.

  Modelled from the spec: the cache (\<open>lm_eval.caching.cache\<close>) is not among the sources.
  By the spec, \<open>save_to_cache(k, v)\<close> followed by \<open>load_from_cache(k)\<close> gives \<open>v\<close>, and an
  absent key gives an empty result. The keys in use are the three \<open>registry-\<close> keys, one
  slot each, and \<open>raw-{task_name}\<close>, a slot per task name.
\<close>

record state =
  TASK_REGISTRY :: "reg_entry dict"
  GROUP_REGISTRY :: "string list dict"
  ALL_TASKS :: "string set"
  cache_TASK_REGISTRY :: "reg_entry dict option"
  cache_GROUP_REGISTRY :: "string list dict option"
  cache_ALL_TASKS :: "string set option"
  cache_raw :: "string \<Rightarrow> resolved option"
  heap :: "nat \<Rightarrow> config"
  eval_log :: "log_entry list"

type_synonym 'a result = "(error + 'a) \<times> state"

section \<open>Registration\<close>

definition register_task :: "string \<Rightarrow> task_class \<Rightarrow> state \<Rightarrow> state" where
  \<comment> \<open>Modelled from the spec: \<open>register_task\<close> is imported from \<open>lm_eval.api.registry\<close>,
      which is not among the sources. It inserts or overwrites \<open>name \<rightarrow> factory\<close> and adds
      \<open>name\<close> to the namespace set; overwriting is no error.\<close>
  "register_task name fn s =
     s\<lparr>TASK_REGISTRY := dict_set (TASK_REGISTRY s) name (Cls fn),
       ALL_TASKS := insert name (ALL_TASKS s)\<rparr>"

definition register_group :: "pyval \<Rightarrow> string \<Rightarrow> state \<Rightarrow> unit result" where
  \<comment> \<open>Modelled from the spec: \<open>register_group\<close> is imported from \<open>lm_eval.api.registry\<close>,
      which is not among the sources. \<open>register_group name task\<close> groups the task registered
      as \<open>task\<close> under \<open>name\<close>: a new group gets a membership list holding the task and joins
      the namespace set, an existing one is appended to; it fails with the collision error
      when \<open>name\<close> is the task's name. Group names are strings; a list or a dictionary is
      unhashable.\<close>
  "register_group name task s =
     (case name of
        VStr g \<Rightarrow>
          if g = task then (Inl collision_error, s)
          else (case dict_get (GROUP_REGISTRY s) g of
                  Some members \<Rightarrow>
                    (Inr (), s\<lparr>GROUP_REGISTRY := dict_set (GROUP_REGISTRY s) g (members @ [task])\<rparr>)
                | None \<Rightarrow>
                    (Inr (), s\<lparr>GROUP_REGISTRY := dict_set (GROUP_REGISTRY s) g [task],
                               ALL_TASKS := insert g (ALL_TASKS s)\<rparr>))
      | _ \<Rightarrow> (Inl TypeError, s))"

fun register_groups :: "pyval list \<Rightarrow> string \<Rightarrow> state \<Rightarrow> unit result" where
  \<comment> \<open>lines 54-55: \<open>for group in group_name: register_group(group)(SubClass)\<close>\<close>
  "register_groups [] task s = (Inr (), s)"
| "register_groups (g # gs) task s =
     (case register_group g task s of
        (Inl e, s') \<Rightarrow> (Inl e, s')
      | (Inr _, s') \<Rightarrow> register_groups gs task s')"

definition iterate :: "pyval \<Rightarrow> error + pyval list" where
  \<comment> \<open>what a \<open>for\<close> loop over the value visits: the elements of a list, the keys of a
      dictionary, the characters of a string\<close>
  "iterate v =
     (case v of
        VList xs \<Rightarrow> Inr xs
      | VDict d \<Rightarrow> Inr (map VStr (dict_keys d))
      | VStr s \<Rightarrow> Inr (map (\<lambda>c. VStr [c]) s)
      | VOther _ \<Rightarrow> Inl TypeError)"

definition register_configurable_task :: "config \<Rightarrow> state \<Rightarrow> nat result" where
  \<comment> \<open>lines 35-57. Line 37 evaluates \<open>config["task"] + "ConfigurableTask"\<close>: a
      \<open>KeyError\<close> without the field, a \<open>TypeError\<close> when it is not a string. Line 44
      registers the class, line 47 compares \<open>config["group"]\<close> with \<open>config["task"]\<close>.\<close>
  "register_configurable_task config s =
     (case dict_get config ''task'' of
        None \<Rightarrow> (Inl (KeyError ''task''), s)
      | Some (VStr task) \<Rightarrow>
          (let SubClass = TaskClass (task @ ''ConfigurableTask'') (Some (TaskConfig config)) None;
               task_name = task;
               s1 = (if dict_has ''task'' config then register_task task_name SubClass s else s)
           in if dict_has ''group'' config then
                (case dict_get config ''group'' of
                   None \<Rightarrow> (Inl (KeyError ''group''), s1)
                 | Some grp \<Rightarrow>
                     if grp = VStr task then (Inl collision_error, s1)
                     else (case (case grp of VStr g \<Rightarrow> Inr [grp] | _ \<Rightarrow> iterate grp) of
                             Inl e \<Rightarrow> (Inl e, s1)
                           | Inr group_name \<Rightarrow>
                               (case register_groups group_name task_name s1 of
                                  (Inl e, s2) \<Rightarrow> (Inl e, s2)
                                | (Inr _, s2) \<Rightarrow> (Inr 0, s2))))
              else (Inr 0, s1))
      | Some _ \<Rightarrow> (Inl TypeError, s))"

section \<open>The external collaborators\<close>

text \<open>
  The functions the module calls and the spec leaves outside the core, taken as
  parameters: \<open>utils.load_yaml_config(yaml_path, yaml_config)\<close> (the second argument is
  \<open>None\<close> when the file itself is to be parsed), \<open>prompts.load_prompt_list(use_prompt,
  dataset_name, subset_name, yaml_path)\<close>, whose result is a list of variation
  identifiers, \<open>utils.pattern_match(patterns, names)\<close>, \<open>os.walk\<close> as the list of
  \<open>(root, subdirs, files)\<close> it yields, and the text Python's \<open>format\<close> gives a value
  that is not a string.
\<close>

record env =
  load_yaml_config :: "string \<Rightarrow> config option \<Rightarrow> error + config"
  load_prompt_list :: "pyval \<Rightarrow> pyval \<Rightarrow> pyval option \<Rightarrow> string \<Rightarrow> error + string list"
  pattern_match :: "string list \<Rightarrow> string set \<Rightarrow> string list"
  os_walk :: "string \<Rightarrow> (string \<times> string list \<times> string list) list"
  str_other :: "pyval \<Rightarrow> string"

definition py_str :: "env \<Rightarrow> pyval \<Rightarrow> string" where
  \<comment> \<open>\<open>"{}".format(v)\<close>\<close>
  "py_str E v = (case v of VStr s \<Rightarrow> s | _ \<Rightarrow> str_other E v)"

section \<open>Prompt expansion\<close>

definition get_task_name_from_config :: "env \<Rightarrow> config \<Rightarrow> error + string" where
  \<comment> \<open>lines 141-145\<close>
  "get_task_name_from_config E task_config =
     (if dict_has ''dataset_name'' task_config then
        (case (dict_get task_config ''dataset_path'', dict_get task_config ''dataset_name'') of
           (Some dp, Some dn) \<Rightarrow> Inr (py_str E dp @ ''_'' @ py_str E dn)
         | (None, _) \<Rightarrow> Inl (KeyError ''dataset_path'')
         | (_, None) \<Rightarrow> Inl (KeyError ''dataset_name''))
      else
        (case dict_get task_config ''dataset_path'' of
           Some dp \<Rightarrow> Inr (py_str E dp)
         | None \<Rightarrow> Inl (KeyError ''dataset_path'')))"

definition variation_short_name :: "string \<Rightarrow> string" where
  \<comment> \<open>lines 127-129: \<open>prompt_variation.split("/")[-1] if ".yaml" in prompt_variation
      else prompt_variation\<close>\<close>
  "variation_short_name prompt_variation =
     (if contains ''.yaml'' prompt_variation then last_segment prompt_variation
      else prompt_variation)"

definition prompt_config :: "env \<Rightarrow> config \<Rightarrow> string \<Rightarrow> error + config" where
  \<comment> \<open>lines 118-134: the dictionary appended for one variation\<close>
  "prompt_config E config prompt_variation =
     (case (case dict_get config ''task'' of
              Some t \<Rightarrow> Inr t
            | None \<Rightarrow> (case get_task_name_from_config E config of
                         Inl e \<Rightarrow> Inl e
                       | Inr n \<Rightarrow> Inr (VStr n))) of
        Inl e \<Rightarrow> Inl e
      | Inr (VStr base) \<Rightarrow>
          Inr (dict_merge
                (dict_merge
                  (dict_merge config [(''use_prompt'', VStr prompt_variation)])
                  [(''task'', VStr (join_underscore base (variation_short_name prompt_variation)))])
                [(''output_type'', VStr ''generate_until'')])
      | Inr _ \<Rightarrow> Inl TypeError)"

fun prompt_configs :: "env \<Rightarrow> config \<Rightarrow> string list \<Rightarrow> error + config list" where
  \<comment> \<open>lines 116-135: the loop over \<open>prompt_list\<close>\<close>
  "prompt_configs E config [] = Inr []"
| "prompt_configs E config (v # vs) =
     (case prompt_config E config v of
        Inl e \<Rightarrow> Inl e
      | Inr c \<Rightarrow> (case prompt_configs E config vs of
                   Inl e \<Rightarrow> Inl e
                 | Inr cs \<Rightarrow> Inr (c # cs)))"

definition check_prompt_config :: "env \<Rightarrow> config \<Rightarrow> string \<Rightarrow> error + config list" where
  \<comment> \<open>lines 105-138\<close>
  "check_prompt_config E config yaml_path =
     (if dict_has ''use_prompt'' config then
        (case dict_get config ''use_prompt'' of
           None \<Rightarrow> Inl (KeyError ''use_prompt'')
         | Some use_prompt \<Rightarrow>
             (case dict_get config ''dataset_path'' of
                None \<Rightarrow> Inl (KeyError ''dataset_path'')
              | Some dataset_path \<Rightarrow>
                  (case load_prompt_list E use_prompt dataset_path
                          (if dict_has ''dataset_name'' config
                           then dict_get config ''dataset_name'' else None)
                          yaml_path of
                     Inl e \<Rightarrow> Inl e
                   | Inr prompt_list \<Rightarrow> prompt_configs E config prompt_list)))
      else Inr [config])"

section \<open>Groups\<close>

fun register_configurable_tasks :: "config list \<Rightarrow> state \<Rightarrow> unit result" where
  \<comment> \<open>lines 90-91: \<open>for config in var_configs: register_configurable_task(config)\<close>\<close>
  "register_configurable_tasks [] s = (Inr (), s)"
| "register_configurable_tasks (c # cs) s =
     (case register_configurable_task c s of
        (Inl e, s') \<Rightarrow> (Inl e, s')
      | (Inr _, s') \<Rightarrow> register_configurable_tasks cs s')"

definition fetch_base_config :: "env \<Rightarrow> pyval \<Rightarrow> config \<Rightarrow> state \<Rightarrow> error + config \<times> config" where
  \<comment> \<open>lines 67-78: \<open>(base_config, task_name_config)\<close> for one inline member\<close>
  "fetch_base_config E grp task_config s =
     (if dict_has ''task'' task_config then
        (case dict_get task_config ''task'' of
           None \<Rightarrow> Inl (KeyError ''task'')
         | Some (VStr task_name) \<Rightarrow>
             if task_name \<in> ALL_TASKS s then
               (case dict_get (TASK_REGISTRY s) task_name of
                  None \<Rightarrow> Inl (KeyError task_name)
                | Some entry \<Rightarrow>
                    (case (case entry of Tup _ second \<Rightarrow> second | _ \<Rightarrow> Some entry) of
                       None \<Rightarrow> Inr ([], [])
                     | Some (Cls c) \<Rightarrow>
                         (case CONFIG c of
                            None \<Rightarrow> Inl AttributeError
                          | Some tc \<Rightarrow>
                              Inr (to_dict tc, [(''task'', VStr (py_str E grp @ ''_'' @ task_name))]))
                     | Some (Obj t) \<Rightarrow>
                         (case CONFIG (class_of t) of
                            None \<Rightarrow> Inl AttributeError
                          | Some tc \<Rightarrow>
                              Inr (to_dict tc, [(''task'', VStr (py_str E grp @ ''_'' @ task_name))]))
                     | Some (Tup _ _) \<Rightarrow> Inl AttributeError))
             else Inr ([], [])
         | Some (VOther _) \<Rightarrow> Inr ([], [])
         | Some _ \<Rightarrow> Inl TypeError)
      else Inr ([], []))"

definition merged_config :: "config \<Rightarrow> config \<Rightarrow> pyval \<Rightarrow> config \<Rightarrow> config" where
  \<comment> \<open>lines 82-87: \<open>{**base_config, **task_config, **{"group": group}, **task_name_config}\<close>\<close>
  "merged_config base_config task_config grp task_name_config =
     dict_merge (dict_merge (dict_merge base_config task_config) [(''group'', grp)])
       task_name_config"

definition register_group_member :: "env \<Rightarrow> string \<Rightarrow> pyval \<Rightarrow> pyval \<Rightarrow> state \<Rightarrow> unit result" where
  \<comment> \<open>lines 67-91: the body of the loop over the inline members. A member that is neither
      a string nor a mapping raises \<open>TypeError\<close> before anything is registered.\<close>
  "register_group_member E yaml_path grp member s =
     (case member of
        VDict task_config \<Rightarrow>
          (case fetch_base_config E grp task_config s of
             Inl e \<Rightarrow> (Inl e, s)
           | Inr (base_config, task_name_config) \<Rightarrow>
               (case load_yaml_config E yaml_path (Some task_config) of
                  Inl e \<Rightarrow> (Inl e, s)
                | Inr task_config' \<Rightarrow>
                    (case check_prompt_config E
                            (merged_config base_config task_config' grp task_name_config)
                            (path_dirname yaml_path) of
                       Inl e \<Rightarrow> (Inl e, s)
                     | Inr var_configs \<Rightarrow> register_configurable_tasks var_configs s)))
      | _ \<Rightarrow> (Inl TypeError, s))"

fun register_group_members :: "env \<Rightarrow> string \<Rightarrow> pyval \<Rightarrow> pyval list \<Rightarrow> state \<Rightarrow> unit result" where
  "register_group_members E yaml_path grp [] s = (Inr (), s)"
| "register_group_members E yaml_path grp (m # ms) s =
     (case register_group_member E yaml_path grp m s of
        (Inl e, s') \<Rightarrow> (Inl e, s')
      | (Inr _, s') \<Rightarrow> register_group_members E yaml_path grp ms s')"

definition link_group_member :: "pyval \<Rightarrow> string \<Rightarrow> state \<Rightarrow> unit result" where
  \<comment> \<open>lines 95-100, for one matched name. The group's name is a dictionary key: a list or
      a dictionary is unhashable, and names are strings.\<close>
  "link_group_member grp task s =
     (if dict_has task (TASK_REGISTRY s) \<or> dict_has task (GROUP_REGISTRY s) then
        (case grp of
           VStr g \<Rightarrow>
             (case dict_get (GROUP_REGISTRY s) g of
                Some members \<Rightarrow>
                  (Inr (), s\<lparr>GROUP_REGISTRY := dict_set (GROUP_REGISTRY s) g (members @ [task])\<rparr>)
              | None \<Rightarrow>
                  (Inr (), s\<lparr>GROUP_REGISTRY := dict_set (GROUP_REGISTRY s) g [task],
                             ALL_TASKS := insert g (ALL_TASKS s)\<rparr>))
         | _ \<Rightarrow> (Inl TypeError, s))
      else (Inr (), s))"

fun link_group_members :: "pyval \<Rightarrow> string list \<Rightarrow> state \<Rightarrow> unit result" where
  "link_group_members grp [] s = (Inr (), s)"
| "link_group_members grp (t # ts) s =
     (case link_group_member grp t s of
        (Inl e, s') \<Rightarrow> (Inl e, s')
      | (Inr _, s') \<Rightarrow> link_group_members grp ts s')"

definition is_str :: "pyval \<Rightarrow> bool" where
  \<comment> \<open>\<open>isinstance(v, str)\<close>\<close>
  "is_str v = (case v of VStr _ \<Rightarrow> True | _ \<Rightarrow> False)"


definition str_of :: "pyval \<Rightarrow> string" where
  "str_of v = (case v of VStr s \<Rightarrow> s | _ \<Rightarrow> [])"

definition register_configurable_group :: "env \<Rightarrow> config \<Rightarrow> string \<Rightarrow> state \<Rightarrow> nat result" where
  \<comment> \<open>lines 60-102: the inline members first, then the names that
      \<open>utils.pattern_match\<close> finds for the bare names in the namespace set\<close>
  "register_configurable_group E config yaml_path s =
     (case dict_get config ''group'' of
        None \<Rightarrow> (Inl (KeyError ''group''), s)
      | Some grp \<Rightarrow>
          (case dict_get config ''task'' of
             None \<Rightarrow> (Inl (KeyError ''task''), s)
           | Some all_tasks \<Rightarrow>
               (case iterate all_tasks of
                  Inl e \<Rightarrow> (Inl e, s)
                | Inr all_task_list \<Rightarrow>
                    (let config_list = filter (\<lambda>t. \<not> is_str t) all_task_list;
                         task_list = map str_of (filter is_str all_task_list)
                     in case register_group_members E yaml_path grp config_list s of
                          (Inl e, s1) \<Rightarrow> (Inl e, s1)
                        | (Inr _, s1) \<Rightarrow>
                            (case link_group_members grp
                                    (pattern_match E task_list (ALL_TASKS s1)) s1 of
                               (Inl e, s2) \<Rightarrow> (Inl e, s2)
                             | (Inr _, s2) \<Rightarrow> (Inr 0, s2))))))"

section \<open>Discovery\<close>





definition write_log :: "log_entry \<Rightarrow> state \<Rightarrow> state" where
  "write_log entry s = s\<lparr>eval_log := eval_log s @ [entry]\<rparr>"











section \<open>Resolution\<close>

definition get_task :: "string \<Rightarrow> config \<Rightarrow> state \<Rightarrow> task result" where
  \<comment> \<open>lines 262-277. Calling a registered class gives an instance of it; a slot that
      holds no class is not callable. A missing name is logged with the sorted list of
      known names and raised as \<open>KeyError\<close>.\<close>
  "get_task task_name config s =
     (case dict_get (TASK_REGISTRY s) task_name of
        Some (Cls c) \<Rightarrow> (Inr (Task c config), s)
      | Some _ \<Rightarrow> (Inl TypeError, s)
      | None \<Rightarrow>
          (Inl (KeyError (''Missing task '' @ task_name)),
           write_log (Info_available_tasks
             (sort (dict_keys (TASK_REGISTRY s) @ dict_keys (GROUP_REGISTRY s)))) s))"

definition get_task_name_from_object :: "state \<Rightarrow> task \<Rightarrow> string" where
  \<comment> \<open>lines 280-291: the first registry name whose slot is this very object, else the
      object's \<open>EVAL_HARNESS_NAME\<close>, else the name of its class\<close>
  "get_task_name_from_object s task_object =
     (case find (\<lambda>item. snd item = Obj task_object) (TASK_REGISTRY s) of
        Some item \<Rightarrow> fst item
      | None \<Rightarrow>
          (case EVAL_HARNESS_NAME (class_of task_object) of
             Some n \<Rightarrow> n
           | None \<Rightarrow> class_name (class_of task_object)))"

text \<open>
  An element of the request list: a plain name, an inline configuration record (the
  caller's dictionary, by its address), a live task instance, or a value of another type,
  which the loop passes over.
\<close>

datatype element =
    EStr string
  | EDict nat
  | ETask task
  | EOther

datatype requests =
    RList "element list"
  | RElem element

record dicts =
  task_name_from_registry_dict :: resolved
  task_name_from_config_dict :: resolved
  task_name_from_object_dict :: resolved

definition resolve_member ::
  "(string \<Rightarrow> state \<Rightarrow> resolved result) \<Rightarrow> string \<Rightarrow> string \<Rightarrow> resolved \<Rightarrow> state \<Rightarrow> resolved result" where
  \<comment> \<open>lines 310-325: one member of a group; \<open>recurse task_name\<close> is
      \<open>get_task_dict(task_name)\<close>\<close>
  "resolve_member recurse group_name task_name registry_dict s =
     (if \<not> dict_has task_name registry_dict then
        (case recurse task_name s of
           (Inl e, s') \<Rightarrow> (Inl e, s')
         | (Inr task_obj, s') \<Rightarrow>
             (let task_dict =
                    (case dict_get task_obj task_name of
                       Some v \<Rightarrow> [(task_name, RPair group_name (Some v))]
                     | None \<Rightarrow> dict_merge [(task_name, RPair group_name None)] task_obj)
              in (Inr (dict_merge registry_dict task_dict), s')))
      else (Inr registry_dict, s))"

fun resolve_members ::
  "(string \<Rightarrow> state \<Rightarrow> resolved result) \<Rightarrow> string \<Rightarrow> string list \<Rightarrow> resolved \<Rightarrow> state \<Rightarrow> resolved result" where
  \<comment> \<open>line 309: \<open>for task_name in GROUP_REGISTRY[task_element]\<close>\<close>
  "resolve_members recurse group_name [] registry_dict s = (Inr registry_dict, s)"
| "resolve_members recurse group_name (task_name # rest) registry_dict s =
     (case resolve_member recurse group_name task_name registry_dict s of
        (Inl e, s') \<Rightarrow> (Inl e, s')
      | (Inr registry_dict', s') \<Rightarrow> resolve_members recurse group_name rest registry_dict' s')"

definition resolve_task :: "string \<Rightarrow> config \<Rightarrow> resolved \<Rightarrow> state \<Rightarrow> resolved result" where
  \<comment> \<open>lines 327-351: a plain name that is not a group; the cache slot \<open>raw-{task_name}\<close>
      is \<open>cache_raw s task_name\<close>\<close>
  "resolve_task task_name config registry_dict s =
     (if \<not> dict_has task_name registry_dict then
        (case cache_raw s task_name of
           Some (x # xs) \<Rightarrow> (Inr (dict_merge registry_dict (x # xs)), s)
         | _ \<Rightarrow>
             (case get_task task_name config s of
                (Inl e, s') \<Rightarrow> (Inl e, s')
              | (Inr t, s') \<Rightarrow>
                  (let registry_dict' = dict_set registry_dict task_name (RTask t)
                   in (Inr registry_dict',
                       s'\<lparr>cache_raw := (cache_raw s')(task_name := Some registry_dict')\<rparr>))))
      else (Inr registry_dict, s))"

definition resolve_element ::
  "env \<Rightarrow> (string \<Rightarrow> state \<Rightarrow> resolved result) \<Rightarrow> config \<Rightarrow> element \<Rightarrow> dicts \<Rightarrow> state \<Rightarrow> dicts result" where
  \<comment> \<open>lines 306-368: the body of the loop over the request list\<close>
  "resolve_element E recurse config task_element d s =
     (case task_element of
        EStr name \<Rightarrow>
          (case (case dict_get (GROUP_REGISTRY s) name of
                   Some members \<Rightarrow>
                     resolve_members recurse name members (task_name_from_registry_dict d) s
                 | None \<Rightarrow> resolve_task name config (task_name_from_registry_dict d) s) of
             (Inl e, s') \<Rightarrow> (Inl e, s')
           | (Inr registry_dict, s') \<Rightarrow>
               (Inr (d\<lparr>task_name_from_registry_dict := registry_dict\<rparr>), s'))
      | EDict a \<Rightarrow>
          (let updated = dict_merge (heap s a) config;
               s1 = s\<lparr>heap := (heap s)(a := updated)\<rparr>
           in case get_task_name_from_config E updated of
                Inl e \<Rightarrow> (Inl e, s1)
              | Inr name \<Rightarrow>
                  (Inr (d\<lparr>task_name_from_config_dict :=
                            dict_set (task_name_from_config_dict d) name
                              (RTask (Task ConfigurableTask updated))\<rparr>), s1))
      | ETask t \<Rightarrow>
          (Inr (d\<lparr>task_name_from_object_dict :=
                    dict_set (task_name_from_object_dict d) (get_task_name_from_object s t)
                      (RTask t)\<rparr>), s)
      | EOther \<Rightarrow> (Inr d, s))"

fun resolve_elements ::
  "env \<Rightarrow> (string \<Rightarrow> state \<Rightarrow> resolved result) \<Rightarrow> config \<Rightarrow> element list \<Rightarrow> dicts \<Rightarrow> state \<Rightarrow> dicts result" where
  \<comment> \<open>line 305: \<open>for task_element in task_name_list\<close>\<close>
  "resolve_elements E recurse config [] d s = (Inr d, s)"
| "resolve_elements E recurse config (x # xs) d s =
     (case resolve_element E recurse config x d s of
        (Inl e, s') \<Rightarrow> (Inl e, s')
      | (Inr d', s') \<Rightarrow> resolve_elements E recurse config xs d' s')"

definition finish :: "dicts \<Rightarrow> error + resolved" where
  \<comment> \<open>lines 370-378: the assertion and the returned dictionary\<close>
  "finish d =
     (if set (dict_keys (task_name_from_registry_dict d)) \<inter>
         set (dict_keys (task_name_from_object_dict d)) = {}
      then Inr (dict_merge
                 (dict_merge (task_name_from_registry_dict d) (task_name_from_config_dict d))
                 (task_name_from_object_dict d))
      else Inl AssertionError)"

text \<open>
  \<open>get_task_dict\<close> calls itself for every member of a group, and a group may be a member
  of itself. The first argument is the depth of calls that is left before Python raises
  \<open>RecursionError\<close>. The recursive call passes no keyword arguments.
\<close>

fun get_task_dict :: "env \<Rightarrow> nat \<Rightarrow> requests \<Rightarrow> config \<Rightarrow> state \<Rightarrow> resolved result" where
  \<comment> \<open>lines 295-378\<close>
  "get_task_dict E 0 task_name_list kwargs s = (Inl RecursionError, s)"
| "get_task_dict E (Suc depth) task_name_list kwargs s =
     (case resolve_elements E
             (\<lambda>task_name st. get_task_dict E depth (RElem (EStr task_name)) [] st)
             kwargs
             (case task_name_list of RList l \<Rightarrow> l | RElem x \<Rightarrow> [x])
             \<lparr>task_name_from_registry_dict = [], task_name_from_config_dict = [],
              task_name_from_object_dict = []\<rparr> s of
        (Inl e, s') \<Rightarrow> (Inl e, s')
      | (Inr d, s') \<Rightarrow> (finish d, s'))"

section \<open>A small installation\<close>

text \<open>
  A state with nothing registered and nothing cached, and a definition directory
  \<open>tasks\<close> with two task definitions, a group definition, a file that does not parse and
  a file whose loading needs a module that is not installed. Prompt selectors expand to a
  file-backed variation and an inline one; patterns match names literally.
\<close>

definition empty_state :: state where
  "empty_state =
     \<lparr>TASK_REGISTRY = [], GROUP_REGISTRY = [], ALL_TASKS = {},
      cache_TASK_REGISTRY = None, cache_GROUP_REGISTRY = None, cache_ALL_TASKS = None,
      cache_raw = (\<lambda>name. None), heap = (\<lambda>a. []), eval_log = []\<rparr>"

definition alpha_config :: config where
  "alpha_config =
     [(''task'', VStr ''alpha''), (''dataset_path'', VStr ''alpha_data''), (''num_fewshot'', VOther 0)]"

definition beta_config :: config where
  "beta_config = [(''task'', VStr ''beta'')]"

definition example_files :: "string \<Rightarrow> error + config" where
  "example_files yaml_path =
     (if yaml_path = ''tasks/t1.yaml'' then Inr alpha_config
      else if yaml_path = ''tasks/t2.yaml'' then Inr beta_config
      else if yaml_path = ''tasks/g.yaml''
        then Inr [(''group'', VStr ''mygroup''), (''task'', VList [VStr ''alpha'', VStr ''beta''])]
      else if yaml_path = ''tasks/dep.yaml'' then Inl ModuleNotFoundError
      else Inl (OtherError 0))"

definition example_env :: env where
  "example_env =
     \<lparr>load_yaml_config =
        (\<lambda>yaml_path yaml_config.
           case yaml_config of Some c \<Rightarrow> Inr c | None \<Rightarrow> example_files yaml_path),
      load_prompt_list =
        (\<lambda>use_prompt dataset_name subset_name yaml_path. Inr [''prompts/foo.yaml'', ''bar'']),
      pattern_match = (\<lambda>patterns names. filter (\<lambda>p. p \<in> names) patterns),
      os_walk =
        (\<lambda>task_dir. [(''tasks'', [], [''g.yaml'', ''bad.yaml'', ''dep.yaml'', ''t1.yaml'',
                                   ''notes.txt'', ''t2.yaml''])]),
      str_other = (\<lambda>v. ''?'')\<rparr>"

text \<open>The registries once the two tasks and the group are registered.\<close>

definition alpha_class :: task_class where
  "alpha_class = TaskClass ''alphaConfigurableTask'' (Some (TaskConfig alpha_config)) None"

definition beta_class :: task_class where
  "beta_class = TaskClass ''betaConfigurableTask'' (Some (TaskConfig beta_config)) None"

definition example_state :: state where
  "example_state =
     empty_state
       \<lparr>TASK_REGISTRY := [(''alpha'', Cls alpha_class), (''beta'', Cls beta_class)],
        GROUP_REGISTRY := [(''mygroup'', [''alpha'', ''beta''])],
        ALL_TASKS := {''alpha'', ''beta'', ''mygroup''}\<rparr>"

text \<open>
  Registries with a group inside a group: \<open>outer\<close> has the task \<open>alpha\<close> and the group
  \<open>inner\<close> as members, and \<open>alpha\<close> is a member of \<open>inner\<close> too.
\<close>

definition nested_state :: state where
  "nested_state =
     empty_state
       \<lparr>TASK_REGISTRY := [(''alpha'', Cls alpha_class)],
        GROUP_REGISTRY := [(''outer'', [''alpha'', ''inner'']), (''inner'', [''alpha''])],
        ALL_TASKS := {''alpha'', ''outer'', ''inner''}\<rparr>"

text \<open>
  The registries of \<open>example_state\<close> and a caller's dictionary at address 0; a live
  instance of a class of the caller's own whose display name is \<open>alpha\<close>.
\<close>

definition caller_state :: state where
  "caller_state =
     example_state\<lparr>heap := (\<lambda>a. if a = 0 then [(''dataset_path'', VStr ''d'')] else [])\<rparr>"




section \<open>Facts about dictionaries\<close>

lemma dict_get_Nil: "dict_get [] k = None"
  by (simp add: dict_get_def)

lemma dict_get_Cons: "dict_get (kv # b) k = (if k = fst kv then Some (snd kv) else dict_get b k)"
  by (cases kv) (simp add: dict_get_def)

lemma dict_get_set: "dict_get (dict_set d k v) k' = (if k' = k then Some v else dict_get d k')"
  by (simp add: dict_get_def dict_set_def update_conv')

lemma dict_has_get: "dict_has k d \<longleftrightarrow> dict_get d k \<noteq> None"
  by (simp add: dict_has_def dict_get_def dict_keys_def map_of_eq_None_iff)

lemma dict_keys_set: "set (dict_keys (dict_set d k v)) = insert k (set (dict_keys d))"
  by (simp add: dict_keys_def dict_set_def dom_update)


lemma wf_dict_set: "wf_dict d \<Longrightarrow> wf_dict (dict_set d k v)"
  by (simp add: wf_dict_def dict_keys_def dict_set_def distinct_update)

lemma dict_merge_Nil: "dict_merge a [] = a"
  by (simp add: dict_merge_def)

lemma dict_merge_Cons: "dict_merge a (kv # b) = dict_merge (dict_set a (fst kv) (snd kv)) b"
  by (simp add: dict_merge_def)

lemma dict_keys_merge: "set (dict_keys (dict_merge a b)) = set (dict_keys a) \<union> set (dict_keys b)"
proof (induction b arbitrary: a)
  case Nil
  then show ?case by (simp add: dict_merge_Nil dict_keys_def)
next
  case (Cons kv b)
  show ?case
    unfolding dict_merge_Cons Cons.IH dict_keys_set
    by (auto simp: dict_keys_def)
qed

lemma dict_get_merge_notin:
  "k \<notin> set (dict_keys b) \<Longrightarrow> dict_get (dict_merge a b) k = dict_get a k"
proof (induction b arbitrary: a)
  case Nil
  then show ?case by (simp add: dict_merge_Nil)
next
  case (Cons kv b)
  then show ?case
    by (simp add: dict_merge_Cons dict_get_set dict_keys_def)
qed

lemma dict_get_merge:
  "wf_dict b \<Longrightarrow>
   dict_get (dict_merge a b) k = (case dict_get b k of Some v \<Rightarrow> Some v | None \<Rightarrow> dict_get a k)"
proof (induction b arbitrary: a)
  case Nil
  then show ?case by (simp add: dict_merge_Nil dict_get_Nil)
next
  case (Cons kv b)
  have wf: "wf_dict b" and nin: "fst kv \<notin> set (dict_keys b)"
    using Cons.prems by (auto simp: wf_dict_def dict_keys_def)
  show ?case
  proof (cases "k = fst kv")
    case True
    then show ?thesis
      using nin by (simp add: dict_merge_Cons dict_get_merge_notin dict_get_set dict_get_Cons)
  next
    case False
    then show ?thesis
      using Cons.IH[OF wf]
      by (simp add: dict_merge_Cons dict_get_set dict_get_Cons split: option.split)
  qed
qed

lemma wf_dict_merge: "wf_dict a \<Longrightarrow> wf_dict (dict_merge a b)"
  by (induction b arbitrary: a) (simp_all add: dict_merge_Nil dict_merge_Cons wf_dict_set)

lemma dict_get_merge_single:
  "dict_get (dict_merge a [(k, v)]) k' = (if k' = k then Some v else dict_get a k')"
  by (simp add: dict_merge_Cons dict_merge_Nil dict_get_set)

section \<open>Registering a task whose group has the task's name\<close>






section \<open>Prompt expansion\<close>

lemmas dict_eval = dict_merge_def dict_set_def dict_get_def dict_has_def dict_keys_def

lemma dict_get_dataset_name:
  "(if dict_has ''dataset_name'' config then dict_get config ''dataset_name'' else None) =
     dict_get config ''dataset_name''"
  by (simp add: dict_has_get)

lemma prompt_config_lookup:
  assumes "prompt_config E config v = Inr c"
  shows "dict_get c ''use_prompt'' = Some (VStr v)"
    and "dict_get c ''output_type'' = Some (VStr ''generate_until'')"
    and "k \<notin> {''use_prompt'', ''task'', ''output_type''} \<Longrightarrow> dict_get c k = dict_get config k"
  using assms
  by (auto simp: prompt_config_def dict_get_merge_single
           split: option.splits sum.splits pyval.splits)

lemma prompt_config_task:
  assumes "dict_get config ''task'' = Some (VStr base) \<or>
           dict_get config ''task'' = None \<and> get_task_name_from_config E config = Inr base"
  shows "\<exists>c. prompt_config E config v = Inr c \<and>
             dict_get c ''task'' = Some (VStr (base @ ''_'' @ variation_short_name v))"
  using assms
  by (auto simp: prompt_config_def dict_get_merge_single join_underscore_def)

lemma prompt_configs_length:
  "prompt_configs E config vs = Inr cs \<Longrightarrow> length cs = length vs"
  by (induction vs arbitrary: cs) (auto split: sum.splits)

lemma prompt_configs_nth:
  "prompt_configs E config vs = Inr cs \<Longrightarrow> i < length vs \<Longrightarrow>
     prompt_config E config (vs ! i) = Inr (cs ! i)"
proof (induction vs arbitrary: cs i)
  case Nil
  then show ?case by simp
next
  case (Cons v vs)
  then show ?case by (cases i) (auto split: sum.splits)
qed

lemma prompt_configs_total:
  assumes "\<And>v. \<exists>c. prompt_config E config v = Inr c"
  shows "\<exists>cs. prompt_configs E config vs = Inr cs"
proof (induction vs)
  case Nil
  then show ?case by simp
next
  case (Cons v vs)
  then obtain cs where "prompt_configs E config vs = Inr cs" by blast
  moreover obtain c where "prompt_config E config v = Inr c" using assms by blast
  ultimately show ?case by simp
qed

lemma last_segment_after_slash:
  "CHR ''/'' \<notin> set f \<Longrightarrow> last_segment (d @ ''/'' @ f) = f"
  by (simp add: last_segment_def takeWhile_append)

text \<open>
  C4, as the spec has it, says that the short name of a file-backed variation is the file
  name without its directory and without its extension. The code takes
  \<open>prompt_variation.split("/")[-1]\<close> (line 127), which drops the directory and keeps the
  extension: for the variation \<open>prompts/foo.yaml\<close> of the task \<open>t\<close> the expanded task is
  named \<open>t_foo.yaml\<close>, not \<open>t_foo\<close>.
\<close>

theorem check_prompt_config_keeps_extension:
  "check_prompt_config example_env
     [(''task'', VStr ''t''), (''use_prompt'', VStr ''p''), (''dataset_path'', VStr ''d'')] ''tasks'' =
   Inr [[(''task'', VStr ''t_foo.yaml''), (''use_prompt'', VStr ''prompts/foo.yaml''),
         (''dataset_path'', VStr ''d''), (''output_type'', VStr ''generate_until'')],
        [(''task'', VStr ''t_bar''), (''use_prompt'', VStr ''bar''),
         (''dataset_path'', VStr ''d''), (''output_type'', VStr ''generate_until'')]]"
  by (simp add: check_prompt_config_def example_env_def prompt_config_def dict_eval
        variation_short_name_def last_segment_def join_underscore_def)

text \<open>
  C4, amended. A configuration without a prompt selector comes back unchanged, as the
  only element of the list. For a configuration with a selector and a \<open>dataset_path\<close>,
  once the prompt subsystem has returned the list of variations and the base name is
  known (the \<open>task\<close> field, a string, or without one the name derived from the dataset
  fields), expansion returns one configuration for each variation, in order: its
  \<open>use_prompt\<close> is the variation, its \<open>output_type\<close> is \<open>generate_until\<close>, its \<open>task\<close> is
  the base name, an underscore and the variation's short name, and every other field is
  the original's. The short name of a variation that contains \<open>.yaml\<close> is what follows
  its last slash, extension included; any other variation is its own short name.
\<close>

theorem check_prompt_config_variations:
  "(\<not> dict_has ''use_prompt'' config \<longrightarrow> check_prompt_config E config yaml_path = Inr [config]) \<and>
   (\<forall>use_prompt dataset_path prompt_list base.
      dict_get config ''use_prompt'' = Some use_prompt \<and>
      dict_get config ''dataset_path'' = Some dataset_path \<and>
      load_prompt_list E use_prompt dataset_path (dict_get config ''dataset_name'') yaml_path =
        Inr prompt_list \<and>
      (dict_get config ''task'' = Some (VStr base) \<or>
       dict_get config ''task'' = None \<and> get_task_name_from_config E config = Inr base)
      \<longrightarrow>
      (\<exists>configs. check_prompt_config E config yaml_path = Inr configs \<and>
         length configs = length prompt_list \<and>
         (\<forall>i < length prompt_list.
            dict_get (configs ! i) ''use_prompt'' = Some (VStr (prompt_list ! i)) \<and>
            dict_get (configs ! i) ''output_type'' = Some (VStr ''generate_until'') \<and>
            dict_get (configs ! i) ''task'' =
              Some (VStr (base @ ''_'' @
                (if contains ''.yaml'' (prompt_list ! i) then last_segment (prompt_list ! i)
                 else prompt_list ! i))) \<and>
            (\<forall>k. k \<notin> {''use_prompt'', ''task'', ''output_type''} \<longrightarrow>
               dict_get (configs ! i) k = dict_get config k)))) \<and>
   (\<forall>d f. CHR ''/'' \<notin> set f \<longrightarrow> last_segment (d @ ''/'' @ f) = f)"
proof (intro conjI allI impI)
  assume "\<not> dict_has ''use_prompt'' config"
  then show "check_prompt_config E config yaml_path = Inr [config]"
    by (simp add: check_prompt_config_def)
next
  fix use_prompt dataset_path prompt_list base
  assume h: "dict_get config ''use_prompt'' = Some use_prompt \<and>
      dict_get config ''dataset_path'' = Some dataset_path \<and>
      load_prompt_list E use_prompt dataset_path (dict_get config ''dataset_name'') yaml_path =
        Inr prompt_list \<and>
      (dict_get config ''task'' = Some (VStr base) \<or>
       dict_get config ''task'' = None \<and> get_task_name_from_config E config = Inr base)"
  then have base: "dict_get config ''task'' = Some (VStr base) \<or>
       dict_get config ''task'' = None \<and> get_task_name_from_config E config = Inr base"
    by blast
  have unfold: "check_prompt_config E config yaml_path = prompt_configs E config prompt_list"
    using h by (cases "dict_get config ''dataset_name''")
      (auto simp add: check_prompt_config_def dict_has_get)
  obtain configs where configs: "prompt_configs E config prompt_list = Inr configs"
    using prompt_configs_total[of E config prompt_list] prompt_config_task[OF base] by blast
  have "dict_get (configs ! i) ''use_prompt'' = Some (VStr (prompt_list ! i)) \<and>
        dict_get (configs ! i) ''output_type'' = Some (VStr ''generate_until'') \<and>
        dict_get (configs ! i) ''task'' =
          Some (VStr (base @ ''_'' @
            (if contains ''.yaml'' (prompt_list ! i) then last_segment (prompt_list ! i)
             else prompt_list ! i))) \<and>
        (\<forall>k. k \<notin> {''use_prompt'', ''task'', ''output_type''} \<longrightarrow>
           dict_get (configs ! i) k = dict_get config k)"
    if "i < length prompt_list" for i
  proof -
    have c: "prompt_config E config (prompt_list ! i) = Inr (configs ! i)"
      by (rule prompt_configs_nth[OF configs that])
    obtain c' where "prompt_config E config (prompt_list ! i) = Inr c'"
      and "dict_get c' ''task'' =
             Some (VStr (base @ ''_'' @ variation_short_name (prompt_list ! i)))"
      using prompt_config_task[OF base] by blast
    with c have "dict_get (configs ! i) ''task'' =
             Some (VStr (base @ ''_'' @ variation_short_name (prompt_list ! i)))"
      by simp
    then show ?thesis
      using prompt_config_lookup[OF c] by (simp add: variation_short_name_def)
  qed
  then show "\<exists>configs. check_prompt_config E config yaml_path = Inr configs \<and>
         length configs = length prompt_list \<and>
         (\<forall>i < length prompt_list.
            dict_get (configs ! i) ''use_prompt'' = Some (VStr (prompt_list ! i)) \<and>
            dict_get (configs ! i) ''output_type'' = Some (VStr ''generate_until'') \<and>
            dict_get (configs ! i) ''task'' =
              Some (VStr (base @ ''_'' @
                (if contains ''.yaml'' (prompt_list ! i) then last_segment (prompt_list ! i)
                 else prompt_list ! i))) \<and>
            (\<forall>k. k \<notin> {''use_prompt'', ''task'', ''output_type''} \<longrightarrow>
               dict_get (configs ! i) k = dict_get config k))"
    using unfold configs prompt_configs_length[OF configs] by auto
next
  fix d f
  assume "CHR ''/'' \<notin> set f"
  then show "last_segment (d @ ''/'' @ f) = f"
    by (rule last_segment_after_slash)
qed


theorem check_prompt_config_variations_witness:
  "\<not> dict_has ''use_prompt'' [(''task'', VStr ''alpha'')] \<and>
   check_prompt_config example_env [(''task'', VStr ''alpha'')] ''tasks'' =
     Inr [[(''task'', VStr ''alpha'')]] \<and>
   (\<exists>configs.
      check_prompt_config example_env
        [(''task'', VStr ''t''), (''use_prompt'', VStr ''p''), (''dataset_path'', VStr ''d'')]
        ''tasks'' = Inr configs \<and>
      length configs = 2 \<and>
      dict_get (configs ! 0) ''use_prompt'' = Some (VStr ''prompts/foo.yaml'') \<and>
      dict_get (configs ! 0) ''output_type'' = Some (VStr ''generate_until'') \<and>
      dict_get (configs ! 0) ''task'' = Some (VStr ''t_foo.yaml'') \<and>
      dict_get (configs ! 0) ''dataset_path'' = Some (VStr ''d'') \<and>
      dict_get (configs ! 1) ''use_prompt'' = Some (VStr ''bar'') \<and>
      dict_get (configs ! 1) ''task'' = Some (VStr ''t_bar'')) \<and>
   last_segment (''prompts'' @ ''/'' @ ''foo.yaml'') = ''foo.yaml''"
proof -
  let ?plain = "[(''task'', VStr ''alpha'')]"
  let ?config = "[(''task'', VStr ''t''), (''use_prompt'', VStr ''p''), (''dataset_path'', VStr ''d'')]"
  have no_selector: "\<not> dict_has ''use_prompt'' ?plain"
    by (simp add: dict_has_def dict_keys_def)
  have plain: "check_prompt_config example_env ?plain ''tasks'' = Inr [?plain]"
    using check_prompt_config_variations[of ?plain example_env "''tasks''"] no_selector by blast
  have hyps: "dict_get ?config ''use_prompt'' = Some (VStr ''p'') \<and>
      dict_get ?config ''dataset_path'' = Some (VStr ''d'') \<and>
      load_prompt_list example_env (VStr ''p'') (VStr ''d'') (dict_get ?config ''dataset_name'')
        ''tasks'' = Inr [''prompts/foo.yaml'', ''bar''] \<and>
      (dict_get ?config ''task'' = Some (VStr ''t'') \<or>
       dict_get ?config ''task'' = None \<and> get_task_name_from_config example_env ?config = Inr ''t'')"
    by (simp add: dict_get_Cons example_env_def)
  have "\<exists>configs. check_prompt_config example_env ?config ''tasks'' = Inr configs \<and>
         length configs = length [''prompts/foo.yaml'', ''bar''] \<and>
         (\<forall>i < length [''prompts/foo.yaml'', ''bar''].
            dict_get (configs ! i) ''use_prompt'' = Some (VStr ([''prompts/foo.yaml'', ''bar''] ! i)) \<and>
            dict_get (configs ! i) ''output_type'' = Some (VStr ''generate_until'') \<and>
            dict_get (configs ! i) ''task'' =
              Some (VStr (''t'' @ ''_'' @
                (if contains ''.yaml'' ([''prompts/foo.yaml'', ''bar''] ! i)
                 then last_segment ([''prompts/foo.yaml'', ''bar''] ! i)
                 else [''prompts/foo.yaml'', ''bar''] ! i))) \<and>
            (\<forall>k. k \<notin> {''use_prompt'', ''task'', ''output_type''} \<longrightarrow>
               dict_get (configs ! i) k = dict_get ?config k))"
    using check_prompt_config_variations[of ?config example_env "''tasks''"] hyps by blast
  then obtain configs where ok: "check_prompt_config example_env ?config ''tasks'' = Inr configs"
    and len: "length configs = 2"
    and each: "\<And>i. i < 2 \<Longrightarrow>
            dict_get (configs ! i) ''use_prompt'' = Some (VStr ([''prompts/foo.yaml'', ''bar''] ! i)) \<and>
            dict_get (configs ! i) ''output_type'' = Some (VStr ''generate_until'') \<and>
            dict_get (configs ! i) ''task'' =
              Some (VStr (''t'' @ ''_'' @
                (if contains ''.yaml'' ([''prompts/foo.yaml'', ''bar''] ! i)
                 then last_segment ([''prompts/foo.yaml'', ''bar''] ! i)
                 else [''prompts/foo.yaml'', ''bar''] ! i))) \<and>
            (\<forall>k. k \<notin> {''use_prompt'', ''task'', ''output_type''} \<longrightarrow>
               dict_get (configs ! i) k = dict_get ?config k)"
    by auto
  have all_seg: "\<forall>d f. CHR ''/'' \<notin> set f \<longrightarrow> last_segment (d @ ''/'' @ f) = f"
    using check_prompt_config_variations[of ?config example_env "''tasks''"] by blast
  have "CHR ''/'' \<notin> set ''foo.yaml''"
    by simp
  then have seg: "last_segment (''prompts'' @ ''/'' @ ''foo.yaml'') = ''foo.yaml''"
    using all_seg by blast
  show ?thesis
    using no_selector plain ok len each[of 0] each[of 1] seg
    by (simp add: last_segment_def dict_get_Cons)
qed

section \<open>Inline members of a group\<close>




lemma register_configurable_group_example:
  "register_configurable_group example_env
     [(''group'', VStr ''few''),
      (''task'', VList [VDict [(''task'', VStr ''alpha''), (''num_fewshot'', VOther 5)]])]
     ''tasks/few.yaml'' example_state =
   (Inr 0,
    example_state
      \<lparr>TASK_REGISTRY :=
         [(''alpha'', Cls alpha_class), (''beta'', Cls beta_class),
          (''few_alpha'',
           Cls (TaskClass ''few_alphaConfigurableTask''
                  (Some (TaskConfig
                     [(''task'', VStr ''few_alpha''), (''dataset_path'', VStr ''alpha_data''),
                      (''num_fewshot'', VOther 5), (''group'', VStr ''few'')]))
                  None))],
       GROUP_REGISTRY := [(''mygroup'', [''alpha'', ''beta'']), (''few'', [''few_alpha''])],
       ALL_TASKS := {''alpha'', ''beta'', ''mygroup'', ''few_alpha'', ''few''}\<rparr>)"
  by (simp add: register_configurable_group_def iterate_def is_str_def str_of_def
       register_group_member_def fetch_base_config_def merged_config_def check_prompt_config_def
       register_configurable_task_def register_task_def register_group_def
       example_state_def example_env_def empty_state_def alpha_class_def alpha_config_def
       py_str_def link_group_member_def dict_eval Let_def insert_commute)


section \<open>Discovery\<close>






































section \<open>Resolution: groups\<close>

declare get_task_dict.simps [simp del]

lemma get_task_class:
  "dict_get (TASK_REGISTRY s) name = Some (Cls c) \<Longrightarrow> get_task name config s = (Inr (Task c config), s)"
  by (simp add: get_task_def)

lemma finish_registry_only:
  "finish \<lparr>task_name_from_registry_dict = r, task_name_from_config_dict = [],
           task_name_from_object_dict = []\<rparr> = Inr r"
  by (simp add: finish_def dict_merge_Nil dict_keys_def)

lemma resolve_task_miss:
  assumes "\<not> dict_has name registry_dict"
    and "cache_raw s name = None \<or> cache_raw s name = Some []"
    and "dict_get (TASK_REGISTRY s) name = Some (Cls c)"
  shows "resolve_task name config registry_dict s =
           (Inr (dict_set registry_dict name (RTask (Task c config))),
            s\<lparr>cache_raw := (cache_raw s)
                 (name := Some (dict_set registry_dict name (RTask (Task c config))))\<rparr>)"
  using assms by (auto simp add: resolve_task_def get_task_class Let_def)

lemma get_task_dict_plain:
  assumes "dict_get (GROUP_REGISTRY s) name = None"
    and "dict_get (TASK_REGISTRY s) name = Some (Cls c)"
    and "cache_raw s name = None \<or> cache_raw s name = Some []"
  shows "get_task_dict E (Suc depth) (RElem (EStr name)) kwargs s =
           (Inr [(name, RTask (Task c kwargs))],
            s\<lparr>cache_raw := (cache_raw s)(name := Some [(name, RTask (Task c kwargs))])\<rparr>)"
proof -
  have "\<not> dict_has name ([] :: resolved)"
    by (simp add: dict_has_def dict_keys_def)
  then have "resolve_task name kwargs [] s =
           (Inr [(name, RTask (Task c kwargs))],
            s\<lparr>cache_raw := (cache_raw s)(name := Some [(name, RTask (Task c kwargs))])\<rparr>)"
    using resolve_task_miss[OF _ assms(3) assms(2), of "[]" kwargs]
    by (simp add: dict_set_def)
  then show ?thesis
    using assms(1) by (simp add: get_task_dict.simps resolve_element_def finish_registry_only)
qed

lemma resolve_member_present:
  "dict_has task_name registry_dict \<Longrightarrow>
   resolve_member recurse group_name task_name registry_dict s = (Inr registry_dict, s)"
  by (simp add: resolve_member_def)

lemma resolve_member_error:
  "\<not> dict_has task_name registry_dict \<Longrightarrow> recurse task_name s = (Inl e, s') \<Longrightarrow>
   resolve_member recurse group_name task_name registry_dict s = (Inl e, s')"
  by (simp add: resolve_member_def)

lemma resolve_member_own_name:
  assumes "\<not> dict_has task_name registry_dict"
    and "recurse task_name s = (Inr task_obj, s')"
    and "dict_get task_obj task_name = Some v"
  shows "resolve_member recurse group_name task_name registry_dict s =
           (Inr (dict_merge registry_dict [(task_name, RPair group_name (Some v))]), s')"
  using assms by (simp add: resolve_member_def)

lemma resolve_member_no_own_name:
  assumes "\<not> dict_has task_name registry_dict"
    and "recurse task_name s = (Inr task_obj, s')"
    and "dict_get task_obj task_name = None"
  shows "resolve_member recurse group_name task_name registry_dict s =
           (Inr (dict_merge registry_dict
                  (dict_merge [(task_name, RPair group_name None)] task_obj)), s')"
  using assms by (simp add: resolve_member_def)

lemma wf_dict_single: "wf_dict [(k, v)]"
  by (simp add: wf_dict_def dict_keys_def)

lemma no_own_name_lookup:
  assumes "dict_get task_obj task_name = None"
  shows "dict_get (dict_merge registry_dict
                    (dict_merge [(task_name, RPair group_name None)] task_obj)) task_name =
           Some (RPair group_name None)"
    and "k \<noteq> task_name \<Longrightarrow> wf_dict task_obj \<Longrightarrow>
         dict_get (dict_merge registry_dict
                    (dict_merge [(task_name, RPair group_name None)] task_obj)) k =
           (case dict_get task_obj k of Some v \<Rightarrow> Some v | None \<Rightarrow> dict_get registry_dict k)"
proof -
  let ?x = "dict_merge [(task_name, RPair group_name None)] task_obj"
  have wf: "wf_dict ?x"
    by (rule wf_dict_merge[OF wf_dict_single])
  have notin: "task_name \<notin> set (dict_keys task_obj)"
    using assms dict_has_get[of task_name task_obj] by (simp add: dict_has_def)
  have "dict_get ?x task_name = Some (RPair group_name None)"
    by (simp add: dict_get_merge_notin[OF notin] dict_get_Cons)
  then show "dict_get (dict_merge registry_dict ?x) task_name = Some (RPair group_name None)"
    by (simp add: dict_get_merge[OF wf])
  show "dict_get (dict_merge registry_dict ?x) k =
           (case dict_get task_obj k of Some v \<Rightarrow> Some v | None \<Rightarrow> dict_get registry_dict k)"
    if "k \<noteq> task_name" "wf_dict task_obj"
    using that
    by (simp add: dict_get_merge[OF wf] dict_get_merge[OF that(2)] dict_get_Cons dict_get_Nil
          split: option.split)
qed


lemma resolve_members_flat:
  assumes "\<forall>m\<in>set ms. dict_get (GROUP_REGISTRY s) m = None \<and>
             (\<exists>c. dict_get (TASK_REGISTRY s) m = Some (Cls c))"
    and "\<forall>m\<in>set ms. dict_has m acc \<or> cache_raw s m = None \<or> cache_raw s m = Some []"
  shows "\<exists>acc' s'.
           resolve_members (\<lambda>task_name st. get_task_dict E (Suc depth) (RElem (EStr task_name)) [] st)
             g ms acc s = (Inr acc', s') \<and>
           set (dict_keys acc') = set (dict_keys acc) \<union> set ms \<and>
           (\<forall>k. dict_has k acc \<longrightarrow> dict_get acc' k = dict_get acc k) \<and>
           (\<forall>m\<in>set ms. \<not> dict_has m acc \<longrightarrow>
              (\<exists>c. dict_get (TASK_REGISTRY s) m = Some (Cls c) \<and>
                   dict_get acc' m = Some (RPair g (Some (RTask (Task c []))))))"
  using assms
proof (induction ms arbitrary: acc s)
  case Nil
  then show ?case by simp
next
  case (Cons m ms)
  let ?rec = "\<lambda>task_name st. get_task_dict E (Suc depth) (RElem (EStr task_name)) [] st"
  show ?case
  proof (cases "dict_has m acc")
    case True
    have step: "resolve_member ?rec g m acc s = (Inr acc, s)"
      using True by (rule resolve_member_present)
    obtain acc' s' where
      run: "resolve_members ?rec g ms acc s = (Inr acc', s')"
      and keys: "set (dict_keys acc') = set (dict_keys acc) \<union> set ms"
      and old: "\<forall>k. dict_has k acc \<longrightarrow> dict_get acc' k = dict_get acc k"
      and new: "\<forall>m\<in>set ms. \<not> dict_has m acc \<longrightarrow>
              (\<exists>c. dict_get (TASK_REGISTRY s) m = Some (Cls c) \<and>
                   dict_get acc' m = Some (RPair g (Some (RTask (Task c [])))))"
      using Cons.IH[of s acc] Cons.prems by auto
    have "set (dict_keys acc') = set (dict_keys acc) \<union> set (m # ms)"
      using keys True by (auto simp add: dict_has_def)
    moreover have "\<forall>m'\<in>set (m # ms). \<not> dict_has m' acc \<longrightarrow>
              (\<exists>c. dict_get (TASK_REGISTRY s) m' = Some (Cls c) \<and>
                   dict_get acc' m' = Some (RPair g (Some (RTask (Task c [])))))"
      using new True by auto
    ultimately show ?thesis
      using step run old by auto
  next
    case False
    obtain c where c: "dict_get (TASK_REGISTRY s) m = Some (Cls c)"
      and grp: "dict_get (GROUP_REGISTRY s) m = None"
      using Cons.prems(1) by auto
    have miss: "cache_raw s m = None \<or> cache_raw s m = Some []"
      using Cons.prems(2) False by auto
    let ?s1 = "s\<lparr>cache_raw := (cache_raw s)(m := Some [(m, RTask (Task c []))])\<rparr>"
    let ?acc1 = "dict_merge acc [(m, RPair g (Some (RTask (Task c []))))]"
    have call: "?rec m s = (Inr [(m, RTask (Task c []))], ?s1)"
      by (rule get_task_dict_plain[OF grp c miss])
    have step: "resolve_member ?rec g m acc s = (Inr ?acc1, ?s1)"
      using resolve_member_own_name[of m acc ?rec s "[(m, RTask (Task c []))]" ?s1
              "RTask (Task c [])" g] False call
      by (simp add: dict_get_Cons)
    have keys1: "set (dict_keys ?acc1) = insert m (set (dict_keys acc))"
      by (simp add: dict_keys_merge) (simp add: dict_keys_def)
    have get1: "dict_get ?acc1 k = (if k = m then Some (RPair g (Some (RTask (Task c []))))
                                    else dict_get acc k)" for k
      by (rule dict_get_merge_single)
    have pre1: "\<forall>m'\<in>set ms. dict_get (GROUP_REGISTRY ?s1) m' = None \<and>
             (\<exists>c. dict_get (TASK_REGISTRY ?s1) m' = Some (Cls c))"
      using Cons.prems(1) by simp
    have pre2: "\<forall>m'\<in>set ms. dict_has m' ?acc1 \<or> cache_raw ?s1 m' = None \<or>
                  cache_raw ?s1 m' = Some []"
    proof
      fix m' assume m': "m' \<in> set ms"
      show "dict_has m' ?acc1 \<or> cache_raw ?s1 m' = None \<or> cache_raw ?s1 m' = Some []"
      proof (cases "m' = m")
        case True
        then show ?thesis by (simp add: dict_has_def keys1)
      next
        case False
        then show ?thesis
          using Cons.prems(2) m' by (auto simp add: dict_has_def keys1)
      qed
    qed
    obtain acc' s' where
      run: "resolve_members ?rec g ms ?acc1 ?s1 = (Inr acc', s')"
      and keys: "set (dict_keys acc') = set (dict_keys ?acc1) \<union> set ms"
      and old: "\<forall>k. dict_has k ?acc1 \<longrightarrow> dict_get acc' k = dict_get ?acc1 k"
      and new: "\<forall>m'\<in>set ms. \<not> dict_has m' ?acc1 \<longrightarrow>
              (\<exists>c. dict_get (TASK_REGISTRY ?s1) m' = Some (Cls c) \<and>
                   dict_get acc' m' = Some (RPair g (Some (RTask (Task c [])))))"
      using Cons.IH[OF pre1 pre2] by blast
    have a: "resolve_members ?rec g (m # ms) acc s = (Inr acc', s')"
      using step run by simp
    have b: "set (dict_keys acc') = set (dict_keys acc) \<union> set (m # ms)"
      using keys keys1 by auto
    have c1: "\<forall>k. dict_has k acc \<longrightarrow> dict_get acc' k = dict_get acc k"
    proof (intro allI impI)
      fix k assume k: "dict_has k acc"
      then have "k \<noteq> m" using False by auto
      moreover have "dict_has k ?acc1" using k by (simp add: dict_has_def keys1)
      ultimately show "dict_get acc' k = dict_get acc k"
        using old get1 by simp
    qed
    have d: "\<forall>m'\<in>set (m # ms). \<not> dict_has m' acc \<longrightarrow>
              (\<exists>c. dict_get (TASK_REGISTRY s) m' = Some (Cls c) \<and>
                   dict_get acc' m' = Some (RPair g (Some (RTask (Task c [])))))"
    proof (intro ballI impI)
      fix m' assume m': "m' \<in> set (m # ms)" and fresh: "\<not> dict_has m' acc"
      show "\<exists>c. dict_get (TASK_REGISTRY s) m' = Some (Cls c) \<and>
                   dict_get acc' m' = Some (RPair g (Some (RTask (Task c []))))"
      proof (cases "m' = m")
        case True
        have "dict_has m ?acc1" by (simp add: dict_has_def keys1)
        then have "dict_get acc' m = Some (RPair g (Some (RTask (Task c []))))"
          using old get1 by simp
        then show ?thesis using True c by simp
      next
        case False
        then have "m' \<in> set ms" using m' by simp
        moreover have "\<not> dict_has m' ?acc1"
          using False fresh by (simp add: dict_has_def keys1)
        ultimately show ?thesis using new by simp
      qed
    qed
    show ?thesis
      using a b c1 d by blast
  qed
qed


lemma get_task_dict_flat_group:
  assumes "dict_get (GROUP_REGISTRY s) g = Some members"
    and "\<forall>m\<in>set members. dict_get (GROUP_REGISTRY s) m = None \<and>
           (\<exists>c. dict_get (TASK_REGISTRY s) m = Some (Cls c)) \<and>
           (cache_raw s m = None \<or> cache_raw s m = Some [])"
  shows "\<exists>result s'.
           get_task_dict E (Suc (Suc depth)) (RList [EStr g]) kwargs s = (Inr result, s') \<and>
           set (dict_keys result) = set members \<and>
           (\<forall>m\<in>set members. \<exists>c. dict_get (TASK_REGISTRY s) m = Some (Cls c) \<and>
              dict_get result m = Some (RPair g (Some (RTask (Task c [])))))"
proof -
  let ?rec = "\<lambda>task_name st. get_task_dict E (Suc depth) (RElem (EStr task_name)) [] st"
  have fresh: "\<not> dict_has m ([] :: resolved)" for m
    by (simp add: dict_has_def dict_keys_def)
  obtain acc' s' where
    run: "resolve_members ?rec g members [] s = (Inr acc', s')"
    and keys: "set (dict_keys acc') = set (dict_keys ([] :: resolved)) \<union> set members"
    and new: "\<forall>m\<in>set members. \<not> dict_has m ([] :: resolved) \<longrightarrow>
              (\<exists>c. dict_get (TASK_REGISTRY s) m = Some (Cls c) \<and>
                   dict_get acc' m = Some (RPair g (Some (RTask (Task c [])))))"
    using resolve_members_flat[of members s "[]" E depth g] assms(2) by blast
  have "get_task_dict E (Suc (Suc depth)) (RList [EStr g]) kwargs s = (Inr acc', s')"
    apply (subst get_task_dict.simps(2))
    using assms(1) run by (simp add: resolve_element_def finish_registry_only)
  moreover have "set (dict_keys acc') = set members"
    using keys by (simp add: dict_keys_def)
  ultimately show ?thesis
    using new fresh by blast
qed

lemmas resolve_eval = resolve_element_def resolve_member_def resolve_task_def get_task_def
  finish_def get_task_name_from_object_def get_task_name_from_config_def py_str_def
  ConfigurableTask_def

text \<open>
  C1, as the spec has it, says the result maps every member of a requested group to a
  pair that names this group. With the task \<open>alpha\<close> a member of the group \<open>outer\<close> and
  of its member group \<open>inner\<close>, resolving \<open>alpha\<close> gives an instance under its own name,
  and \<open>alpha\<close> is not in the accumulating result when the loop over \<open>outer\<close> reaches it:
  it is recorded as \<open>(outer, instance)\<close>. The member \<open>inner\<close> comes next; its recursive
  result has no key \<open>inner\<close>, so all of it is merged in (lines 317-320), and its entry
  for \<open>alpha\<close> replaces the one just recorded. The returned mapping gives
  \<open>(inner, instance)\<close> for \<open>alpha\<close>.
\<close>

theorem get_task_dict_nested_group_overwrites:
  "dict_get (GROUP_REGISTRY nested_state) ''outer'' = Some [''alpha'', ''inner''] \<and>
   fst (get_task_dict example_env (Suc (Suc 0)) (RElem (EStr ''alpha'')) [] nested_state) =
     Inr [(''alpha'', RTask (Task alpha_class []))] \<and>
   fst (get_task_dict example_env (Suc (Suc (Suc 0))) (RList [EStr ''outer'']) [] nested_state) =
     Inr [(''alpha'', RPair ''inner'' (Some (RTask (Task alpha_class [])))),
          (''inner'', RPair ''outer'' None)]"
  by (simp add: get_task_dict.simps resolve_eval nested_state_def empty_state_def dict_eval Let_def)

text \<open>
  C1, amended. For a member of a group, one pass of the loop of lines 309-325 does the
  following. A member whose name is a key of the accumulating mapping is skipped: nothing
  is resolved and nothing changes. Any other member is resolved by the recursive call.
  When the recursive result holds the member's own name, with value \<open>v\<close>, the
  accumulating mapping then maps the member to \<open>(group_name, v)\<close> and is otherwise
  unchanged. When it does not, the accumulating mapping then maps the member to
  \<open>(group_name, None)\<close> and takes every entry of the recursive result, which replace
  entries of the same names recorded before. For a group whose members are all
  registered as task classes, are not groups and have empty cache slots,
  \<open>get_task_dict([group])\<close> returns a mapping whose keys are exactly the members, each
  mapped to \<open>(group, instance)\<close>, the instance made with an empty configuration (the
  recursive call passes no keyword arguments).
\<close>

theorem get_task_dict_group_members:
  "(dict_has task_name registry_dict \<longrightarrow>
      resolve_member recurse group_name task_name registry_dict s = (Inr registry_dict, s)) \<and>
   (\<forall>task_obj s'.
      \<not> dict_has task_name registry_dict \<and> recurse task_name s = (Inr task_obj, s') \<longrightarrow>
      (\<exists>registry_dict'.
         resolve_member recurse group_name task_name registry_dict s = (Inr registry_dict', s') \<and>
         (\<forall>v. dict_get task_obj task_name = Some v \<longrightarrow>
            dict_get registry_dict' task_name = Some (RPair group_name (Some v)) \<and>
            (\<forall>k. k \<noteq> task_name \<longrightarrow> dict_get registry_dict' k = dict_get registry_dict k)) \<and>
         (dict_get task_obj task_name = None \<longrightarrow>
            dict_get registry_dict' task_name = Some (RPair group_name None) \<and>
            (\<forall>k. k \<noteq> task_name \<and> wf_dict task_obj \<longrightarrow>
               dict_get registry_dict' k =
                 (case dict_get task_obj k of Some v \<Rightarrow> Some v
                  | None \<Rightarrow> dict_get registry_dict k))))) \<and>
   (\<forall>members.
      dict_get (GROUP_REGISTRY s) group_name = Some members \<and>
      (\<forall>m\<in>set members. dict_get (GROUP_REGISTRY s) m = None \<and>
         (\<exists>c. dict_get (TASK_REGISTRY s) m = Some (Cls c)) \<and>
         (cache_raw s m = None \<or> cache_raw s m = Some [])) \<longrightarrow>
      (\<exists>result s'.
         get_task_dict E (Suc (Suc depth)) (RList [EStr group_name]) kwargs s = (Inr result, s') \<and>
         set (dict_keys result) = set members \<and>
         (\<forall>m\<in>set members. \<exists>c. dict_get (TASK_REGISTRY s) m = Some (Cls c) \<and>
            dict_get result m = Some (RPair group_name (Some (RTask (Task c [])))))))"
proof (intro conjI allI impI)
  assume "dict_has task_name registry_dict"
  then show "resolve_member recurse group_name task_name registry_dict s = (Inr registry_dict, s)"
    by (rule resolve_member_present)
next
  fix task_obj s'
  assume h: "\<not> dict_has task_name registry_dict \<and> recurse task_name s = (Inr task_obj, s')"
  show "\<exists>registry_dict'.
         resolve_member recurse group_name task_name registry_dict s = (Inr registry_dict', s') \<and>
         (\<forall>v. dict_get task_obj task_name = Some v \<longrightarrow>
            dict_get registry_dict' task_name = Some (RPair group_name (Some v)) \<and>
            (\<forall>k. k \<noteq> task_name \<longrightarrow> dict_get registry_dict' k = dict_get registry_dict k)) \<and>
         (dict_get task_obj task_name = None \<longrightarrow>
            dict_get registry_dict' task_name = Some (RPair group_name None) \<and>
            (\<forall>k. k \<noteq> task_name \<and> wf_dict task_obj \<longrightarrow>
               dict_get registry_dict' k =
                 (case dict_get task_obj k of Some v \<Rightarrow> Some v
                  | None \<Rightarrow> dict_get registry_dict k)))"
  proof (cases "dict_get task_obj task_name")
    case None
    have "resolve_member recurse group_name task_name registry_dict s =
            (Inr (dict_merge registry_dict
                   (dict_merge [(task_name, RPair group_name None)] task_obj)), s')"
      using h None by (simp add: resolve_member_no_own_name)
    then show ?thesis
      using None no_own_name_lookup[OF None, where registry_dict = registry_dict and group_name = group_name]
      by auto
  next
    case (Some v)
    have "resolve_member recurse group_name task_name registry_dict s =
            (Inr (dict_merge registry_dict [(task_name, RPair group_name (Some v))]), s')"
      using h Some by (simp add: resolve_member_own_name)
    then show ?thesis
      using Some by (simp add: dict_get_merge_single)
  qed
next
  fix members
  assume "dict_get (GROUP_REGISTRY s) group_name = Some members \<and>
      (\<forall>m\<in>set members. dict_get (GROUP_REGISTRY s) m = None \<and>
         (\<exists>c. dict_get (TASK_REGISTRY s) m = Some (Cls c)) \<and>
         (cache_raw s m = None \<or> cache_raw s m = Some []))"
  then show "\<exists>result s'.
         get_task_dict E (Suc (Suc depth)) (RList [EStr group_name]) kwargs s = (Inr result, s') \<and>
         set (dict_keys result) = set members \<and>
         (\<forall>m\<in>set members. \<exists>c. dict_get (TASK_REGISTRY s) m = Some (Cls c) \<and>
            dict_get result m = Some (RPair group_name (Some (RTask (Task c [])))))"
    using get_task_dict_flat_group[of s group_name members E depth kwargs] by blast
qed

theorem get_task_dict_group_members_witness:
  "dict_get (GROUP_REGISTRY example_state) ''mygroup'' = Some [''alpha'', ''beta''] \<and>
   dict_get (GROUP_REGISTRY example_state) ''alpha'' = None \<and>
   dict_get (TASK_REGISTRY example_state) ''alpha'' = Some (Cls alpha_class) \<and>
   cache_raw example_state ''alpha'' = None \<and>
   dict_get (GROUP_REGISTRY example_state) ''beta'' = None \<and>
   dict_get (TASK_REGISTRY example_state) ''beta'' = Some (Cls beta_class) \<and>
   cache_raw example_state ''beta'' = None \<and>
   (\<exists>result s'.
      get_task_dict example_env (Suc (Suc 0)) (RList [EStr ''mygroup'']) [] example_state =
        (Inr result, s') \<and>
      set (dict_keys result) = {''alpha'', ''beta''} \<and>
      dict_get result ''alpha'' = Some (RPair ''mygroup'' (Some (RTask (Task alpha_class [])))) \<and>
      dict_get result ''beta'' = Some (RPair ''mygroup'' (Some (RTask (Task beta_class []))))) \<and>
   (\<exists>registry_dict' s'.
      resolve_member (\<lambda>n st. get_task_dict example_env (Suc 0) (RElem (EStr n)) [] st)
        ''mygroup'' ''alpha'' [] example_state = (Inr registry_dict', s') \<and>
      dict_get registry_dict' ''alpha'' =
        Some (RPair ''mygroup'' (Some (RTask (Task alpha_class []))))) \<and>
   (\<exists>registry_dict' s'.
      resolve_member (\<lambda>n st. get_task_dict example_env (Suc (Suc 0)) (RElem (EStr n)) [] st)
        ''outer'' ''inner'' [] nested_state = (Inr registry_dict', s') \<and>
      dict_get registry_dict' ''inner'' = Some (RPair ''outer'' None) \<and>
      dict_get registry_dict' ''alpha'' =
        Some (RPair ''inner'' (Some (RTask (Task alpha_class [])))))"
proof -
  have g: "dict_get (GROUP_REGISTRY example_state) ''mygroup'' = Some [''alpha'', ''beta'']"
    and a1: "dict_get (GROUP_REGISTRY example_state) ''alpha'' = None"
    and a2: "dict_get (TASK_REGISTRY example_state) ''alpha'' = Some (Cls alpha_class)"
    and a3: "cache_raw example_state ''alpha'' = None"
    and b1: "dict_get (GROUP_REGISTRY example_state) ''beta'' = None"
    and b2: "dict_get (TASK_REGISTRY example_state) ''beta'' = Some (Cls beta_class)"
    and b3: "cache_raw example_state ''beta'' = None"
    by (simp_all add: example_state_def empty_state_def dict_get_Cons dict_get_Nil)
  have members: "\<forall>m\<in>set [''alpha'', ''beta''].
         dict_get (GROUP_REGISTRY example_state) m = None \<and>
         (\<exists>c. dict_get (TASK_REGISTRY example_state) m = Some (Cls c)) \<and>
         (cache_raw example_state m = None \<or> cache_raw example_state m = Some [])"
    using a1 a2 a3 b1 b2 b3 by simp
  let ?rec1 = "\<lambda>n st. get_task_dict example_env (Suc 0) (RElem (EStr n)) [] st"
  note t1 = get_task_dict_group_members
              [where task_name = "''alpha''" and registry_dict = "[]" and recurse = ?rec1
               and group_name = "''mygroup''" and s = example_state and E = example_env
               and depth = 0 and kwargs = "[]"]
  have "\<exists>result s'.
         get_task_dict example_env (Suc (Suc 0)) (RList [EStr ''mygroup'']) [] example_state =
           (Inr result, s') \<and>
         set (dict_keys result) = set [''alpha'', ''beta''] \<and>
         (\<forall>m\<in>set [''alpha'', ''beta''].
            \<exists>c. dict_get (TASK_REGISTRY example_state) m = Some (Cls c) \<and>
              dict_get result m = Some (RPair ''mygroup'' (Some (RTask (Task c [])))))"
    using t1[THEN conjunct2, THEN conjunct2, rule_format, OF conjI[OF g members]] .
  then obtain result s' where
    run: "get_task_dict example_env (Suc (Suc 0)) (RList [EStr ''mygroup'']) [] example_state =
            (Inr result, s')"
    and keys: "set (dict_keys result) = set [''alpha'', ''beta'']"
    and each: "\<forall>m\<in>set [''alpha'', ''beta''].
            \<exists>c. dict_get (TASK_REGISTRY example_state) m = Some (Cls c) \<and>
              dict_get result m = Some (RPair ''mygroup'' (Some (RTask (Task c []))))"
    by blast
  have ra: "dict_get result ''alpha'' = Some (RPair ''mygroup'' (Some (RTask (Task alpha_class []))))"
    using each a2 by auto
  have rb: "dict_get result ''beta'' = Some (RPair ''mygroup'' (Some (RTask (Task beta_class []))))"
    using each b2 by auto
  have rk: "set (dict_keys result) = {''alpha'', ''beta''}"
    using keys by simp
  have whole: "\<exists>result s'.
      get_task_dict example_env (Suc (Suc 0)) (RList [EStr ''mygroup'']) [] example_state =
        (Inr result, s') \<and>
      set (dict_keys result) = {''alpha'', ''beta''} \<and>
      dict_get result ''alpha'' = Some (RPair ''mygroup'' (Some (RTask (Task alpha_class [])))) \<and>
      dict_get result ''beta'' = Some (RPair ''mygroup'' (Some (RTask (Task beta_class []))))"
    using run rk ra rb by blast
  have fresh: "\<not> dict_has n ([] :: resolved)" for n
    by (simp add: dict_has_def dict_keys_def)
  obtain s1 where call1: "?rec1 ''alpha'' example_state = (Inr [(''alpha'', RTask (Task alpha_class []))], s1)"
    using get_task_dict_plain[OF a1 a2, of example_env 0 "[]"] a3 by simp
  have own: "dict_get [(''alpha'', RTask (Task alpha_class []))] ''alpha'' =
               Some (RTask (Task alpha_class []))"
    by (simp add: dict_get_Cons)
  have step1: "\<exists>registry_dict' s'.
      resolve_member ?rec1 ''mygroup'' ''alpha'' [] example_state = (Inr registry_dict', s') \<and>
      dict_get registry_dict' ''alpha'' =
        Some (RPair ''mygroup'' (Some (RTask (Task alpha_class []))))"
    using t1[THEN conjunct2, THEN conjunct1, rule_format, OF conjI[OF fresh call1]] own
    by blast
  let ?rec2 = "\<lambda>n st. get_task_dict example_env (Suc (Suc 0)) (RElem (EStr n)) [] st"
  note t2 = get_task_dict_group_members
              [where task_name = "''inner''" and registry_dict = "[]" and recurse = ?rec2
               and group_name = "''outer''" and s = nested_state and E = example_env
               and depth = 0 and kwargs = "[]"]
  let ?inner = "[(''alpha'', RPair ''inner'' (Some (RTask (Task alpha_class []))))]"
  have "fst (?rec2 ''inner'' nested_state) = Inr ?inner"
    by (simp add: get_task_dict.simps resolve_eval nested_state_def empty_state_def dict_eval Let_def)
  then obtain s2 where call2: "?rec2 ''inner'' nested_state = (Inr ?inner, s2)"
    by (cases "?rec2 ''inner'' nested_state") simp
  have none: "dict_get ?inner ''inner'' = None"
    and some: "dict_get ?inner ''alpha'' = Some (RPair ''inner'' (Some (RTask (Task alpha_class []))))"
    and wf: "wf_dict ?inner"
    by (simp_all add: dict_get_Cons dict_get_Nil wf_dict_def dict_keys_def)
  obtain registry_dict' where
    r2: "resolve_member ?rec2 ''outer'' ''inner'' [] nested_state = (Inr registry_dict', s2)"
    and r2_inner: "dict_get registry_dict' ''inner'' = Some (RPair ''outer'' None)"
    and r2_rest: "\<forall>k. k \<noteq> ''inner'' \<and> wf_dict ?inner \<longrightarrow>
               dict_get registry_dict' k =
                 (case dict_get ?inner k of Some v \<Rightarrow> Some v
                  | None \<Rightarrow> dict_get ([] :: resolved) k)"
    using t2[THEN conjunct2, THEN conjunct1, rule_format, OF conjI[OF fresh call2]] none
    by blast
  have "dict_get registry_dict' ''alpha'' =
        Some (RPair ''inner'' (Some (RTask (Task alpha_class []))))"
    using r2_rest wf some by simp
  then have step2: "\<exists>registry_dict' s'.
      resolve_member ?rec2 ''outer'' ''inner'' [] nested_state = (Inr registry_dict', s') \<and>
      dict_get registry_dict' ''inner'' = Some (RPair ''outer'' None) \<and>
      dict_get registry_dict' ''alpha'' =
        Some (RPair ''inner'' (Some (RTask (Task alpha_class []))))"
    using r2 r2_inner by blast
  show ?thesis
    using g a1 a2 a3 b1 b2 b3 whole step1 step2 by blast
qed

section \<open>Resolution: what a call reads and writes\<close>

lemma dict_set_same: "dict_get d k = Some v \<Longrightarrow> dict_set d k v = d"
  by (simp add: dict_get_def dict_set_def update_triv)

lemma dict_merge_same:
  "\<forall>kv\<in>set b. dict_get d (fst kv) = Some (snd kv) \<Longrightarrow> dict_merge d b = d"
  by (induction b) (simp_all add: dict_merge_Nil dict_merge_Cons dict_set_same)

lemma dict_get_merge_member:
  assumes "wf_dict b" and "kv \<in> set b"
  shows "dict_get (dict_merge d b) (fst kv) = Some (snd kv)"
proof -
  have "dict_get b (fst kv) = Some (snd kv)"
    using assms by (cases kv) (simp add: dict_get_def wf_dict_def dict_keys_def)
  then show ?thesis
    by (simp add: dict_get_merge[OF assms(1)])
qed

lemma dict_merge_idem: "wf_dict b \<Longrightarrow> dict_merge (dict_merge d b) b = dict_merge d b"
  by (rule dict_merge_same) (simp add: dict_get_merge_member)

lemma get_task_frame:
  "TASK_REGISTRY (snd (get_task name config s)) = TASK_REGISTRY s \<and>
   GROUP_REGISTRY (snd (get_task name config s)) = GROUP_REGISTRY s \<and>
   heap (snd (get_task name config s)) = heap s"
  by (simp add: get_task_def write_log_def split: option.split reg_entry.split)

lemma resolve_task_frame:
  "TASK_REGISTRY (snd (resolve_task name config acc s)) = TASK_REGISTRY s \<and>
   GROUP_REGISTRY (snd (resolve_task name config acc s)) = GROUP_REGISTRY s \<and>
   heap (snd (resolve_task name config acc s)) = heap s"
proof (cases "get_task name config s")
  case (Pair r s1)
  then show ?thesis
    using get_task_frame[of name config s]
    by (cases r) (simp_all add: resolve_task_def Let_def split: option.split list.split)
qed

lemma resolve_member_frame:
  assumes "\<And>name st. TASK_REGISTRY (snd (recurse name st)) = TASK_REGISTRY st \<and>
             GROUP_REGISTRY (snd (recurse name st)) = GROUP_REGISTRY st \<and>
             heap (snd (recurse name st)) = heap st"
  shows "TASK_REGISTRY (snd (resolve_member recurse g m acc s)) = TASK_REGISTRY s \<and>
         GROUP_REGISTRY (snd (resolve_member recurse g m acc s)) = GROUP_REGISTRY s \<and>
         heap (snd (resolve_member recurse g m acc s)) = heap s"
proof (cases "recurse m s")
  case (Pair r s1)
  then show ?thesis
    using assms[of m s] by (cases r) (simp_all add: resolve_member_def Let_def)
qed

lemma resolve_members_frame:
  assumes "\<And>name st. TASK_REGISTRY (snd (recurse name st)) = TASK_REGISTRY st \<and>
             GROUP_REGISTRY (snd (recurse name st)) = GROUP_REGISTRY st \<and>
             heap (snd (recurse name st)) = heap st"
  shows "TASK_REGISTRY (snd (resolve_members recurse g ms acc s)) = TASK_REGISTRY s \<and>
         GROUP_REGISTRY (snd (resolve_members recurse g ms acc s)) = GROUP_REGISTRY s \<and>
         heap (snd (resolve_members recurse g ms acc s)) = heap s"
proof (induction ms arbitrary: acc s)
  case Nil
  then show ?case by simp
next
  case (Cons m ms)
  show ?case
  proof (cases "resolve_member recurse g m acc s")
    case (Pair r s1)
    then show ?thesis
      using resolve_member_frame[of recurse g m acc s, OF assms] Cons.IH[of _ s1]
      by (cases r) simp_all
  qed
qed

lemma resolve_element_frame:
  assumes "\<And>name st. TASK_REGISTRY (snd (recurse name st)) = TASK_REGISTRY st \<and>
             GROUP_REGISTRY (snd (recurse name st)) = GROUP_REGISTRY st \<and>
             heap (snd (recurse name st)) = heap st"
  shows "TASK_REGISTRY (snd (resolve_element E recurse config x d s)) = TASK_REGISTRY s \<and>
         GROUP_REGISTRY (snd (resolve_element E recurse config x d s)) = GROUP_REGISTRY s \<and>
         heap (snd (resolve_element E recurse config x d s)) =
           (case x of EDict a \<Rightarrow> (heap s)(a := dict_merge (heap s a) config) | _ \<Rightarrow> heap s)"
proof (cases x)
  case (EStr name)
  show ?thesis
  proof (cases "dict_get (GROUP_REGISTRY s) name")
    case None
    then show ?thesis
      using EStr resolve_task_frame[of name config "task_name_from_registry_dict d" s]
      by (cases "resolve_task name config (task_name_from_registry_dict d) s")
         (auto simp add: resolve_element_def split: sum.split)
  next
    case (Some members)
    then show ?thesis
      using EStr resolve_members_frame[of recurse name members "task_name_from_registry_dict d" s,
          OF assms]
      by (cases "resolve_members recurse name members (task_name_from_registry_dict d) s")
         (auto simp add: resolve_element_def split: sum.split)
  qed
next
  case (EDict a)
  then show ?thesis
    by (simp add: resolve_element_def Let_def split: sum.split)
next
  case (ETask t)
  then show ?thesis by (simp add: resolve_element_def)
next
  case EOther
  then show ?thesis by (simp add: resolve_element_def)
qed


lemma resolve_elements_frame:
  assumes "\<And>name st. TASK_REGISTRY (snd (recurse name st)) = TASK_REGISTRY st \<and>
             GROUP_REGISTRY (snd (recurse name st)) = GROUP_REGISTRY st \<and>
             heap (snd (recurse name st)) = heap st"
    and "\<forall>a. EDict a \<notin> set xs"
  shows "TASK_REGISTRY (snd (resolve_elements E recurse config xs d s)) = TASK_REGISTRY s \<and>
         GROUP_REGISTRY (snd (resolve_elements E recurse config xs d s)) = GROUP_REGISTRY s \<and>
         heap (snd (resolve_elements E recurse config xs d s)) = heap s"
  using assms(2)
proof (induction xs arbitrary: d s)
  case Nil
  then show ?case by simp
next
  case (Cons x xs)
  have x: "(case x of EDict a \<Rightarrow> (heap s)(a := dict_merge (heap s a) config) | _ \<Rightarrow> heap s) = heap s"
    using Cons.prems by (cases x) auto
  show ?case
  proof (cases "resolve_element E recurse config x d s")
    case (Pair r s1)
    then show ?thesis
      using resolve_element_frame[of recurse E config x d s, OF assms(1)] x Cons.IH[of _ s1]
        Cons.prems
      by (cases r) simp_all
  qed
qed

lemma get_task_dict_frame:
  "TASK_REGISTRY (snd (get_task_dict E depth (RElem (EStr name)) kwargs s)) = TASK_REGISTRY s \<and>
   GROUP_REGISTRY (snd (get_task_dict E depth (RElem (EStr name)) kwargs s)) = GROUP_REGISTRY s \<and>
   heap (snd (get_task_dict E depth (RElem (EStr name)) kwargs s)) = heap s"
proof (induction depth arbitrary: name kwargs s)
  case 0
  then show ?case by (simp add: get_task_dict.simps)
next
  case (Suc depth)
  let ?rec = "\<lambda>task_name st. get_task_dict E depth (RElem (EStr task_name)) [] st"
  let ?d0 = "\<lparr>task_name_from_registry_dict = [], task_name_from_config_dict = [],
              task_name_from_object_dict = []\<rparr>"
  have "TASK_REGISTRY (snd (resolve_elements E ?rec kwargs [EStr name] ?d0 s)) = TASK_REGISTRY s \<and>
        GROUP_REGISTRY (snd (resolve_elements E ?rec kwargs [EStr name] ?d0 s)) = GROUP_REGISTRY s \<and>
        heap (snd (resolve_elements E ?rec kwargs [EStr name] ?d0 s)) = heap s"
    by (rule resolve_elements_frame) (simp_all add: Suc.IH)
  then show ?case
    by (cases "resolve_elements E ?rec kwargs [EStr name] ?d0 s")
       (auto simp add: get_task_dict.simps split: sum.split)
qed

lemma resolve_elements_heap:
  assumes "\<And>name st. TASK_REGISTRY (snd (recurse name st)) = TASK_REGISTRY st \<and>
             GROUP_REGISTRY (snd (recurse name st)) = GROUP_REGISTRY st \<and>
             heap (snd (recurse name st)) = heap st"
    and "wf_dict config"
    and "resolve_elements E recurse config xs d s = (Inr d', s')"
  shows "heap s' a = (if EDict a \<in> set xs then dict_merge (heap s a) config else heap s a)"
  using assms(3)
proof (induction xs arbitrary: d s)
  case Nil
  then show ?case by simp
next
  case (Cons x xs)
  show ?case
  proof (cases "resolve_element E recurse config x d s")
    case (Pair r s1)
    show ?thesis
    proof (cases r)
      case (Inl e)
      then show ?thesis using Cons.prems Pair by simp
    next
      case (Inr d1)
      have rest: "resolve_elements E recurse config xs d1 s1 = (Inr d', s')"
        using Cons.prems Pair Inr by simp
      have h1: "heap s1 =
           (case x of EDict a \<Rightarrow> (heap s)(a := dict_merge (heap s a) config) | _ \<Rightarrow> heap s)"
        using resolve_element_frame[of recurse E config x d s, OF assms(1)] Pair by simp
      have "heap s' a = (if EDict a \<in> set xs then dict_merge (heap s1 a) config else heap s1 a)"
        by (rule Cons.IH[OF rest])
      then show ?thesis
        using h1 by (cases x) (auto simp add: dict_merge_idem[OF assms(2)])
    qed
  qed
qed






lemma get_task_dict_recursion_frame:
  "TASK_REGISTRY (snd ((\<lambda>task_name st. get_task_dict E depth (RElem (EStr task_name)) [] st) name st)) =
     TASK_REGISTRY st \<and>
   GROUP_REGISTRY (snd ((\<lambda>task_name st. get_task_dict E depth (RElem (EStr task_name)) [] st) name st)) =
     GROUP_REGISTRY st \<and>
   heap (snd ((\<lambda>task_name st. get_task_dict E depth (RElem (EStr task_name)) [] st) name st)) = heap st"
  using get_task_dict_frame[of E depth name "[]" st] by simp

lemma get_task_dict_Inr:
  assumes "get_task_dict E depth task_name_list kwargs s = (Inr result, s')"
  shows "\<exists>n d. depth = Suc n \<and>
           resolve_elements E (\<lambda>task_name st. get_task_dict E n (RElem (EStr task_name)) [] st)
             kwargs (case task_name_list of RList l \<Rightarrow> l | RElem x \<Rightarrow> [x])
             \<lparr>task_name_from_registry_dict = [], task_name_from_config_dict = [],
              task_name_from_object_dict = []\<rparr> s = (Inr d, s') \<and>
           finish d = Inr result"
proof (cases depth)
  case 0
  then show ?thesis using assms by (simp add: get_task_dict.simps)
next
  case (Suc n)
  then show ?thesis
    using assms
    by (auto simp add: get_task_dict.simps split: prod.splits sum.splits)
qed





lemma resolve_element_inline:
  assumes "resolve_element E recurse kwargs (EDict a) d s = (Inr d', s')"
  shows "\<exists>name. get_task_name_from_config E (dict_merge (heap s a) kwargs) = Inr name \<and>
           task_name_from_config_dict d' =
             dict_set (task_name_from_config_dict d) name
               (RTask (Task ConfigurableTask (dict_merge (heap s a) kwargs))) \<and>
           heap s' a = dict_merge (heap s a) kwargs"
  using assms by (auto simp add: resolve_element_def Let_def split: sum.splits)

text \<open>
  C10. For a request element that is an inline configuration record, the loop body
  writes the keyword arguments into the caller's dictionary itself (line 356,
  \<open>task_element.update(config)\<close>): after the step the dictionary at the element's address
  is the old one merged with the keyword arguments, also when the step then fails, and
  the instance is built from the updated dictionary and stored under the name derived
  from it. After a call that returns, every dictionary passed in the request list holds
  the merged overrides and every other dictionary is unchanged.
\<close>

theorem get_task_dict_updates_caller_record:
  "heap (snd (resolve_element E recurse kwargs (EDict a) d s)) =
     (heap s)(a := dict_merge (heap s a) kwargs) \<and>
   (\<forall>d' s'.
      resolve_element E recurse kwargs (EDict a) d s = (Inr d', s') \<longrightarrow>
      (\<exists>name. get_task_name_from_config E (dict_merge (heap s a) kwargs) = Inr name \<and>
         task_name_from_config_dict d' =
           dict_set (task_name_from_config_dict d) name
             (RTask (Task ConfigurableTask (dict_merge (heap s a) kwargs))) \<and>
         heap s' a = dict_merge (heap s a) kwargs)) \<and>
   (\<forall>result s'.
      wf_dict kwargs \<and> get_task_dict E depth task_name_list kwargs s = (Inr result, s') \<longrightarrow>
      (\<forall>b. heap s' b =
         (if EDict b \<in> set (case task_name_list of RList l \<Rightarrow> l | RElem x \<Rightarrow> [x])
          then dict_merge (heap s b) kwargs else heap s b)))"
proof (intro conjI allI impI)
  show "heap (snd (resolve_element E recurse kwargs (EDict a) d s)) =
          (heap s)(a := dict_merge (heap s a) kwargs)"
    by (simp add: resolve_element_def Let_def split: sum.split)
next
  fix d' s'
  assume "resolve_element E recurse kwargs (EDict a) d s = (Inr d', s')"
  then show "\<exists>name. get_task_name_from_config E (dict_merge (heap s a) kwargs) = Inr name \<and>
         task_name_from_config_dict d' =
           dict_set (task_name_from_config_dict d) name
             (RTask (Task ConfigurableTask (dict_merge (heap s a) kwargs))) \<and>
         heap s' a = dict_merge (heap s a) kwargs"
    by (rule resolve_element_inline)
next
  fix result s' b
  assume h: "wf_dict kwargs \<and> get_task_dict E depth task_name_list kwargs s = (Inr result, s')"
  let ?xs = "case task_name_list of RList l \<Rightarrow> l | RElem x \<Rightarrow> [x]"
  obtain n d1 where
    loop: "resolve_elements E (\<lambda>task_name st. get_task_dict E n (RElem (EStr task_name)) [] st)
             kwargs ?xs
             \<lparr>task_name_from_registry_dict = [], task_name_from_config_dict = [],
              task_name_from_object_dict = []\<rparr> s = (Inr d1, s')"
    using get_task_dict_Inr[of E depth task_name_list kwargs s result s'] h by blast
  show "heap s' b = (if EDict b \<in> set ?xs then dict_merge (heap s b) kwargs else heap s b)"
    using resolve_elements_heap[OF get_task_dict_recursion_frame _ loop] h by blast
qed

theorem get_task_dict_updates_caller_record_witness:
  "wf_dict [(''num_fewshot'', VOther 3)] \<and>
   heap caller_state 0 = [(''dataset_path'', VStr ''d'')] \<and>
   (\<exists>result s'.
      get_task_dict example_env (Suc 0) (RList [EDict 0, EStr ''alpha''])
        [(''num_fewshot'', VOther 3)] caller_state = (Inr result, s') \<and>
      heap s' 0 = [(''dataset_path'', VStr ''d''), (''num_fewshot'', VOther 3)] \<and>
      heap s' 1 = [] \<and>
      dict_get result ''d'' =
        Some (RTask (Task ConfigurableTask
                [(''dataset_path'', VStr ''d''), (''num_fewshot'', VOther 3)])))"
proof -
  let ?kwargs = "[(''num_fewshot'', VOther 3)]"
  let ?reqs = "RList [EDict 0, EStr ''alpha'']"
  let ?result = "[(''alpha'', RTask (Task alpha_class ?kwargs)),
                  (''d'', RTask (Task ConfigurableTask
                     [(''dataset_path'', VStr ''d''), (''num_fewshot'', VOther 3)]))]"
  have wf: "wf_dict ?kwargs"
    by (simp add: wf_dict_def dict_keys_def)
  have before: "heap caller_state 0 = [(''dataset_path'', VStr ''d'')]"
    and other: "heap caller_state 1 = []"
    by (simp_all add: caller_state_def)
  have "fst (get_task_dict example_env (Suc 0) ?reqs ?kwargs caller_state) = Inr ?result"
    by (simp add: get_task_dict.simps resolve_eval caller_state_def example_state_def
          empty_state_def dict_eval Let_def)
  then obtain s' where run:
    "get_task_dict example_env (Suc 0) ?reqs ?kwargs caller_state = (Inr ?result, s')"
    by (cases "get_task_dict example_env (Suc 0) ?reqs ?kwargs caller_state") simp
  have after: "heap s' b =
         (if EDict b \<in> set (case ?reqs of RList l \<Rightarrow> l | RElem x \<Rightarrow> [x])
          then dict_merge (heap caller_state b) ?kwargs else heap caller_state b)" for b
    using get_task_dict_updates_caller_record
            [where E = example_env and depth = "Suc 0" and task_name_list = ?reqs
               and kwargs = ?kwargs and s = caller_state and a = 0
               and recurse = "\<lambda>n st. (Inr [], st)"
               and d = "\<lparr>task_name_from_registry_dict = [], task_name_from_config_dict = [],
                          task_name_from_object_dict = []\<rparr>",
             THEN conjunct2, THEN conjunct2, rule_format, OF conjI[OF wf run]] .
  have h0: "heap s' 0 = [(''dataset_path'', VStr ''d''), (''num_fewshot'', VOther 3)]"
    using after[of 0] before by (simp add: dict_eval)
  have h1: "heap s' 1 = []"
    using after[of 1] other by simp
  have r: "dict_get ?result ''d'' =
        Some (RTask (Task ConfigurableTask
                [(''dataset_path'', VStr ''d''), (''num_fewshot'', VOther 3)]))"
    by (simp add: dict_get_Cons)
  show ?thesis
    using wf before run h0 h1 r by blast
qed

text \<open>
  C5. On a miss, line 351 saves \<open>task_name_from_registry_dict\<close>, the whole accumulating
  mapping, under the key of the one task (\<open>resolve_task_miss\<close>). After
  \<open>get_task_dict(["alpha", "beta"])\<close> the slot \<open>raw-beta\<close> holds both \<open>alpha\<close> and \<open>beta\<close>,
  and a later \<open>get_task_dict(["beta"])\<close> hits that slot and returns both tasks.
\<close>

theorem get_task_dict_caches_accumulated_result:
  "cache_raw (snd (get_task_dict example_env (Suc 0) (RList [EStr ''alpha'', EStr ''beta'']) []
                    example_state)) ''beta'' =
     Some [(''alpha'', RTask (Task alpha_class [])), (''beta'', RTask (Task beta_class []))] \<and>
   fst (get_task_dict example_env (Suc 0) (RList [EStr ''beta'']) []
         (snd (get_task_dict example_env (Suc 0) (RList [EStr ''alpha'', EStr ''beta'']) []
                 example_state))) =
     Inr [(''alpha'', RTask (Task alpha_class [])), (''beta'', RTask (Task beta_class []))]"
  by (simp add: get_task_dict.simps resolve_eval example_state_def empty_state_def dict_eval
        Let_def)

end
